(* ===== verification/Prelude.thy ===== *)
theory Prelude
  imports Main "HOL-Library.Word"
begin

text \<open>
  Shared vocabulary of the development: bytes as \<open>8 word\<close>, the JavaScript string
  primitives the sources call (\<open>toLowerCase\<close> on ASCII, \<open>endsWith\<close>, number to decimal
  string), the insertion-ordered \<open>Map.prototype.set\<close> on association lists, and the
  error-propagating sequencing of a thrown exception. The lemmas here are the generic
  facts on these primitives that the component theories rely on.
\<close>

named_theorems js_simps "evaluation rules of the JavaScript primitives of the model"
named_theorems js_eval "rules that evaluate case folding on concrete strings"

type_synonym byte = "8 word"
type_synonym bytes = "byte list"

subsection \<open>Case folding (\<open>String.prototype.toLowerCase\<close> on ASCII)\<close>

definition js_lower_char :: "char \<Rightarrow> char" where
  "js_lower_char c =
     (let n = (of_char c :: nat) in if 65 \<le> n \<and> n \<le> 90 then char_of (n + 32) else c)"

definition js_lower :: "string \<Rightarrow> string" where
  "js_lower s = map js_lower_char s"

definition ci_eq :: "string \<Rightarrow> string \<Rightarrow> bool" where
  "ci_eq a b \<longleftrightarrow> js_lower a = js_lower b"

subsection \<open>\<open>String.prototype.endsWith\<close>\<close>

definition ends_with :: "string \<Rightarrow> string \<Rightarrow> bool" where
  "ends_with s t \<longleftrightarrow> length t \<le> length s \<and> drop (length s - length t) s = t"

subsection \<open>Decimal rendering of a non-negative number (string concatenation with a number)\<close>

fun dec_string :: "nat \<Rightarrow> string" where
  "dec_string n =
     (if n < 10 then [char_of (48 + n)] else dec_string (n div 10) @ [char_of (48 + n mod 10)])"

subsection \<open>\<open>Map.prototype.set\<close> on an insertion-ordered map\<close>

text \<open>
  A JavaScript \<open>Map\<close> iterates in insertion order; setting an existing key keeps its
  position and replaces its value.
\<close>

fun amap_set :: "'k \<Rightarrow> 'v \<Rightarrow> ('k \<times> 'v) list \<Rightarrow> ('k \<times> 'v) list" where
  "amap_set k v [] = [(k, v)]"
| "amap_set k v ((k', v') # m) =
     (if k' = k then (k, v) # m else (k', v') # amap_set k v m)"

subsection \<open>Generic lemmas\<close>

lemma js_lower_char_idem [simp, js_simps]: "js_lower_char (js_lower_char c) = js_lower_char c"
  by (auto simp: js_lower_char_def Let_def)

lemma length_js_lower [simp, js_simps]: "length (js_lower s) = length s"
  by (simp add: js_lower_def)

lemma js_lower_idem [simp, js_simps]: "js_lower (js_lower s) = js_lower s"
  by (simp add: js_lower_def comp_def)

lemma js_lower_append [simp, js_simps]: "js_lower (a @ b) = js_lower a @ js_lower b"
  by (simp add: js_lower_def)

lemma js_lower_Cons [simp, js_simps]: "js_lower (c # s) = js_lower_char c # js_lower s"
  by (simp add: js_lower_def)

lemma js_lower_Nil [simp, js_simps]: "js_lower [] = []"
  by (simp add: js_lower_def)

lemma ci_eq_refl [simp, intro]: "ci_eq a a"
  by (simp add: ci_eq_def)

lemma ci_eq_sym: "ci_eq a b \<Longrightarrow> ci_eq b a"
  by (simp add: ci_eq_def)

lemma ci_eq_length: "ci_eq a b \<Longrightarrow> length a = length b"
  by (metis ci_eq_def length_js_lower)

lemma ci_eq_Cons_Cons [js_eval]:
  "ci_eq (x # xs) (y # ys) \<longleftrightarrow> js_lower_char x = js_lower_char y \<and> ci_eq xs ys"
  by (simp add: ci_eq_def)

lemma ci_eq_Nil1 [js_eval]: "ci_eq [] ys \<longleftrightarrow> ys = []"
  by (auto simp: ci_eq_def js_lower_def)

lemma ci_eq_Nil2 [js_eval]: "ci_eq xs [] \<longleftrightarrow> xs = []"
  by (auto simp: ci_eq_def js_lower_def)

declare js_lower_char_def [js_eval] char_of_def [js_eval] bit_0 [js_eval]

lemma ends_with_same_length:
  "length s = length t \<Longrightarrow> ends_with s t \<longleftrightarrow> s = t"
  by (simp add: ends_with_def)

lemma ends_with_refl [simp]: "ends_with s s"
  by (simp add: ends_with_def)

lemma ends_with_append [simp]: "ends_with (u @ t) t"
  by (simp add: ends_with_def)

lemma dec_string_nonempty [simp]: "dec_string n \<noteq> []"
  by (subst dec_string.simps) simp

declare dec_string.simps [simp del]

lemma map_fst_amap_set:
  "map fst (amap_set k v m) = (if k \<in> set (map fst m) then map fst m else map fst m @ [k])"
  by (induction m) force+

lemma amap_set_lookup [simp]: "map_of (amap_set k v m) = (map_of m)(k \<mapsto> v)"
  by (induction m) (auto simp: fun_eq_iff)

lemma distinct_amap_set: "distinct (map fst m) \<Longrightarrow> distinct (map fst (amap_set k v m))"
  by (simp add: map_fst_amap_set)

lemma set_amap_set: "set (amap_set k v m) \<subseteq> insert (k, v) (set m)"
  by (induction m) (auto split: if_splits)

lemma find_Some_mem: "find P xs = Some x \<Longrightarrow> x \<in> set xs \<and> P x"
  by (induction xs) (auto split: if_splits)

lemma find_unique:
  assumes "x \<in> set xs" "P x" "\<And>y. y \<in> set xs \<Longrightarrow> P y \<Longrightarrow> y = x"
  shows "find P xs = Some x"
proof (cases "find P xs")
  case None
  with assms(1,2) show ?thesis by (auto simp: find_None_iff)
next
  case (Some y)
  with assms(3) show ?thesis by (auto dest: find_Some_mem)
qed

end
