(* ===== verification/Base64.thy ===== *)
theory Base64
  imports Prelude
begin

text \<open>
  \<open>fs.readFileSync(file, {encoding: 'base64'})\<close> (licensetexts.ts line 77,
  licenseBuilder.ts line 51) returns the file's bytes in standard base64 with padding
  (RFC 4648, Node's \<open>Buffer.toString('base64')\<close>): every three bytes become four
  characters of the alphabet, a final group of one or two bytes is padded with \<open>=\<close>.
  The attached license text is this string. A decoder (what a consumer of the SBOM runs)
  is defined alongside, and the round trip shows that the attachment determines the
  file's bytes; the length lemma shows that an attachment is empty exactly when the
  file is.
\<close>

unbundle bit_operations_syntax

definition b64_alphabet :: string where
  "b64_alphabet = ''ABCDEFGHIJKLMNOPQRSTUVWXYZabcdefghijklmnopqrstuvwxyz0123456789+/''"

definition b64_char :: "byte \<Rightarrow> char" where
  "b64_char x = b64_alphabet ! unat x"

text \<open>
  The four 6-bit indices of a group of three bytes \<open>a b c\<close>; a missing byte of the last
  group counts as zero.
\<close>

definition b64_s1 :: "byte \<Rightarrow> byte \<Rightarrow> byte" where
  "b64_s1 a b = push_bit 4 (a AND 3) OR drop_bit 4 b"

definition b64_s2 :: "byte \<Rightarrow> byte \<Rightarrow> byte" where
  "b64_s2 b c = push_bit 2 (b AND 15) OR drop_bit 6 c"

fun base64_encode :: "bytes \<Rightarrow> string" where
  "base64_encode (a # b # c # rest) =
     b64_char (drop_bit 2 a) # b64_char (b64_s1 a b) # b64_char (b64_s2 b c)
     # b64_char (c AND 63) # base64_encode rest"
| "base64_encode [a, b] =
     [b64_char (drop_bit 2 a), b64_char (b64_s1 a b), b64_char (b64_s2 b 0), CHR ''='']"
| "base64_encode [a] =
     [b64_char (drop_bit 2 a), b64_char (b64_s1 a 0), CHR ''='', CHR ''='']"
| "base64_encode [] = []"

definition b64_val :: "char \<Rightarrow> byte option" where
  "b64_val c = map_option of_nat (map_of (zip b64_alphabet [0..<64]) c)"

fun base64_decode :: "string \<Rightarrow> bytes option" where
  "base64_decode (c0 # c1 # c2 # c3 # rest) =
     (case (b64_val c0, b64_val c1) of
        (Some x0, Some x1) \<Rightarrow>
          (let a = push_bit 2 x0 OR drop_bit 4 x1 in
           if c2 = CHR ''='' then (if c3 = CHR ''='' \<and> rest = [] then Some [a] else None)
           else case b64_val c2 of
             None \<Rightarrow> None
           | Some x2 \<Rightarrow>
               (let b = push_bit 4 x1 OR drop_bit 2 x2 in
                if c3 = CHR ''='' then (if rest = [] then Some [a, b] else None)
                else case b64_val c3 of
                  None \<Rightarrow> None
                | Some x3 \<Rightarrow>
                    map_option (\<lambda>r. a # b # (push_bit 6 x2 OR x3) # r) (base64_decode rest)))
      | _ \<Rightarrow> None)"
| "base64_decode [] = Some []"
| "base64_decode _ = None"

subsection \<open>Sextets\<close>

lemma lt8_cases: "(n::nat) < 8 \<longleftrightarrow> n = 0 \<or> n = 1 \<or> n = 2 \<or> n = 3 \<or> n = 4 \<or> n = 5 \<or> n = 6 \<or> n = 7"
  by auto

lemma byte_bit_oob: "8 \<le> n \<Longrightarrow> \<not> bit (x::byte) n"
  by (auto dest: bit_imp_le_length)

text \<open>A byte whose two high bits are clear is a sextet: it indexes the alphabet.\<close>

lemma sextet_unat: "take_bit 6 x = (x::byte) \<Longrightarrow> unat x < 64"
proof -
  assume h: "take_bit 6 x = x"
  have "unat (take_bit 6 x) = take_bit 6 (unat x)"
    by (simp add: unsigned_take_bit_eq)
  then have "unat x = take_bit 6 (unat x)" using h by simp
  also have "\<dots> < 2 ^ 6" by (rule take_bit_nat_less_exp)
  finally show ?thesis by simp
qed

text \<open>
  The bit identities of the encoder: each character index is a sextet, and the decoder's
  shifts put the three bytes of a group back together. Each is checked bit by bit.
\<close>

lemma b64_sextets:
  "take_bit 6 (drop_bit 2 a) = (drop_bit 2 a :: byte)"
  "take_bit 6 (b64_s1 a b) = b64_s1 a b"
  "take_bit 6 (b64_s2 b c) = b64_s2 b c"
  "take_bit 6 (c AND 63) = (c AND 63 :: byte)"
  unfolding b64_s1_def b64_s2_def
  by (rule bit_word_eqI, simp add: bit_simps lt8_cases,
      (elim disjE; simp add: bit_simps eval_nat_numeral byte_bit_oob)?)+

lemma b64_regroup:
  "push_bit 2 (drop_bit 2 a) OR drop_bit 4 (b64_s1 a b) = a"
  "push_bit 4 (b64_s1 a b) OR drop_bit 2 (b64_s2 b c) = b"
  "push_bit 6 (b64_s2 b c) OR (c AND 63) = c"
  unfolding b64_s1_def b64_s2_def
  by (rule bit_word_eqI, simp add: bit_simps lt8_cases,
      (elim disjE; simp add: bit_simps eval_nat_numeral byte_bit_oob)?)+

lemmas b64_sextet_bounds = b64_sextets [THEN sextet_unat]

lemma b64_val_b64_char: "unat x < 64 \<Longrightarrow> b64_val (b64_char x) = Some x"
proof -
  assume x: "unat x < 64"
  have d: "distinct b64_alphabet" and l: "length b64_alphabet = 64"
    by (simp_all add: b64_alphabet_def)
  have "map_of (zip b64_alphabet [0..<64]) (b64_alphabet ! unat x) = Some ([0..<64] ! unat x)"
    using d l x by (intro map_of_zip_nth) simp_all
  with x show ?thesis by (simp add: b64_val_def b64_char_def)
qed

lemma b64_char_not_pad: "unat x < 64 \<Longrightarrow> b64_char x \<noteq> CHR ''=''"
proof -
  assume x: "unat x < 64"
  have "CHR ''='' \<notin> set b64_alphabet" by (simp add: b64_alphabet_def)
  moreover have "b64_char x \<in> set b64_alphabet"
    unfolding b64_char_def using x by (intro nth_mem) (simp add: b64_alphabet_def)
  ultimately show ?thesis by auto
qed

subsection \<open>Round trip and length\<close>

text \<open>
  Facts of Node's encoder that the development relies on: decoding gives back the bytes,
  and the text has four characters per started group of three bytes.
\<close>

lemma base64_roundtrip: "base64_decode (base64_encode bs) = Some bs"
  by (induction bs rule: base64_encode.induct)
     (simp_all add: b64_val_b64_char b64_char_not_pad b64_sextet_bounds b64_regroup Let_def)

lemma base64_length: "length (base64_encode bs) = 4 * ((length bs + 2) div 3)"
  by (induction bs rule: base64_encode.induct) (simp_all, arith)

text \<open>Every text the encoder produces is valid input of the decoder.\<close>

lemma base64_encode_decodes: "\<exists>bs'. base64_decode (base64_encode bs) = Some bs'"
  by (induction bs rule: base64_encode.induct)
     (auto simp: b64_val_b64_char b64_char_not_pad b64_sextet_bounds Let_def)

lemma base64_empty_iff [simp]: "base64_encode bs = [] \<longleftrightarrow> bs = []"
  by (cases bs rule: base64_encode.cases) simp_all

end
