(* ===== verification/BomModel.thy ===== *)
theory BomModel
  imports Base64
begin

text \<open>
  The part of the CycloneDX object model (\<open>@cyclonedx/cyclonedx-library\<close>, the
  \<open>Models\<close> namespace) that the license-text code reads and writes: attachments,
  the three kinds of license, components with their properties, licenses and
  sub-components, and the BOM. The library is not part of the sources; its classes are
  modelled by the fields the sources touch. A \<open>LicenseRepository\<close> and a
  \<open>ComponentRepository\<close> are JavaScript sets, iterated in insertion order, so they
  are lists here; a component carries its object identity \<open>cid\<close>, which is what the
  set of the gap audit compares.
\<close>

datatype attachment_encoding = Base64

record attachment =
  att_content :: string
  att_encoding :: attachment_encoding
  att_content_type :: "string option"

datatype license =
    NamedLicense string "attachment option"
  | SpdxLicense string "attachment option"
  | LicenseExpression string

datatype component =
  Component
    (cid: nat)
    (cname: string)
    (cversion: "string option")
    (cproperties: "(string \<times> string) list")
    (clicenses: "license list")
    (ccomponents: "component list")

record bom =
  bom_components :: "component list"

subsection \<open>Access to license fields\<close>

fun license_text :: "license \<Rightarrow> attachment option" where
  "license_text (NamedLicense _ t) = t"
| "license_text (SpdxLicense _ t) = t"
| "license_text (LicenseExpression _) = None"

text \<open>\<open>license.text = \<dots>\<close> on a \<open>DisjunctiveLicense\<close> (named or SPDX).\<close>

fun set_license_text :: "attachment \<Rightarrow> license \<Rightarrow> license" where
  "set_license_text a (NamedLicense n _) = NamedLicense n (Some a)"
| "set_license_text a (SpdxLicense i _) = SpdxLicense i (Some a)"
| "set_license_text a (LicenseExpression e) = LicenseExpression e"

fun is_expression :: "license \<Rightarrow> bool" where
  "is_expression (LicenseExpression _) = True"
| "is_expression _ = False"

text \<open>A license without its text: what attaching a text must not change.\<close>

fun license_key :: "license \<Rightarrow> license" where
  "license_key (NamedLicense n _) = NamedLicense n None"
| "license_key (SpdxLicense i _) = SpdxLicense i None"
| "license_key (LicenseExpression e) = LicenseExpression e"

text \<open>
  A well-typed license text (specification, section 6): base64 that decodes, tagged
  with one of the four content types of the registry. \<open>text_decodes\<close> is the weaker
  property the builder keeps: the content type may also be left undefined.
\<close>

definition spec_content_types :: "string list" where
  "spec_content_types = [''text/plain'', ''text/txt'', ''text/markdown'', ''text/xml'']"

definition attachment_ok :: "attachment \<Rightarrow> bool" where
  "attachment_ok a \<longleftrightarrow>
     base64_decode (att_content a) \<noteq> None \<and>
     (case att_content_type a of None \<Rightarrow> False | Some ct \<Rightarrow> ct \<in> set spec_content_types)"

definition text_ok :: "license \<Rightarrow> bool" where
  "text_ok l \<longleftrightarrow> (case license_text l of None \<Rightarrow> True | Some a \<Rightarrow> attachment_ok a)"

definition attachment_decodes :: "attachment \<Rightarrow> bool" where
  "attachment_decodes a \<longleftrightarrow>
     base64_decode (att_content a) \<noteq> None \<and>
     (case att_content_type a of None \<Rightarrow> True | Some ct \<Rightarrow> ct \<in> set spec_content_types)"

definition text_decodes :: "license \<Rightarrow> bool" where
  "text_decodes l \<longleftrightarrow> (case license_text l of None \<Rightarrow> True | Some a \<Rightarrow> attachment_decodes a)"

subsection \<open>The component tree\<close>

text \<open>All components of a forest in the order of a depth-first, parent-first walk.\<close>

primrec flat_comp :: "component \<Rightarrow> component list"
  and flat_comps :: "component list \<Rightarrow> component list" where
  "flat_comp (Component i n v p ls subs) = Component i n v p ls subs # flat_comps subs"
| "flat_comps [] = []"
| "flat_comps (c # cs) = flat_comp c @ flat_comps cs"

text \<open>
  A forest handed over by the tree builder: every component object occurs once, so the
  identities along the walk are distinct.
\<close>

definition wf_components :: "component list \<Rightarrow> bool" where
  "wf_components cs \<longleftrightarrow> distinct (map cid (flat_comps cs))"

text \<open>The tree with every license set emptied: what an annotation pass must not change.\<close>

primrec skeleton :: "component \<Rightarrow> component"
  and skeletons :: "component list \<Rightarrow> component list" where
  "skeleton (Component i n v p ls subs) = Component i n v p [] (skeletons subs)"
| "skeletons [] = []"
| "skeletons (c # cs) = skeleton c # skeletons cs"

lemma flat_comp_hd: "flat_comp c = c # flat_comps (ccomponents c)"
  by (cases c) simp

lemma flat_comps_append [simp]: "flat_comps (xs @ ys) = flat_comps xs @ flat_comps ys"
  by (induction xs) auto

lemma skeleton_ids: "map cid (flat_comp (skeleton c)) = map cid (flat_comp c)"
  and skeletons_ids: "map cid (flat_comps (skeletons cs)) = map cid (flat_comps cs)"
  by (induction c and cs rule: flat_comp.induct flat_comps.induct) auto

lemma wf_components_skeletons:
  "skeletons cs' = skeletons cs \<Longrightarrow> wf_components cs' \<longleftrightarrow> wf_components cs"
  by (metis skeletons_ids wf_components_def)

lemma license_key_set_license_text [simp]: "license_key (set_license_text a l) = license_key l"
  by (cases l) simp_all

lemma text_ok_set_license_text: "attachment_ok a \<Longrightarrow> text_ok l \<Longrightarrow> text_ok (set_license_text a l)"
  by (cases l) (simp_all add: text_ok_def)

lemma text_decodes_set_license_text:
  "attachment_decodes a \<Longrightarrow> text_decodes l \<Longrightarrow> text_decodes (set_license_text a l)"
  by (cases l) (simp_all add: text_decodes_def)

lemma attachment_ok_encode:
  "ct \<in> set spec_content_types \<Longrightarrow>
     attachment_ok \<lparr>att_content = base64_encode bs, att_encoding = Base64, att_content_type = Some ct\<rparr>"
  using base64_encode_decodes [of bs] by (auto simp: attachment_ok_def)

lemma attachment_decodes_encode:
  "(case ct of None \<Rightarrow> True | Some c \<Rightarrow> c \<in> set spec_content_types) \<Longrightarrow>
     attachment_decodes \<lparr>att_content = base64_encode bs, att_encoding = Base64, att_content_type = ct\<rparr>"
  using base64_encode_decodes [of bs] by (auto simp: attachment_decodes_def)

lemma set_license_text_text:
  "\<not> is_expression l \<Longrightarrow> license_text (set_license_text a l) = Some a"
  by (cases l) auto

lemma is_expression_set_license_text [simp]:
  "is_expression (set_license_text a l) = is_expression l"
  by (cases l) auto

end
