(* ===== verification/LicenseGaps.thy ===== *)
theory LicenseGaps
  imports BomModel
begin

text \<open>
  The license-gap audit of \<open>src/src/licensetexts.ts\<close> (lines 123--170):
  \<open>hasLicenseInformation\<close> decides whether one license carries evidence,
  \<open>hasComponentLicenseIncluded\<close> whether all licenses of a component do,
  \<open>checkLicenseGapsInComponents\<close> collects the components that fail at any depth into a
  \<open>ComponentRepository\<close>, and \<open>checkLicenseGaps\<close> prints them and throws. Console output
  is the list of printed lines; the thrown \<open>Error\<close> is the \<open>Inl\<close> branch.
  The final \<open>throw\<close> of \<open>hasLicenseInformation\<close> for an unknown license class is
  unreachable here: \<open>Models.License\<close> is the union of exactly the three classes of
  \<open>license\<close>, and a \<open>fun\<close> over it is exhaustive.
\<close>

datatype gap_error = LicenseGapFailure string

fun hasLicenseInformation :: "license \<Rightarrow> bool" where
  "hasLicenseInformation (NamedLicense name text) =
     (case text of None \<Rightarrow> False | Some a \<Rightarrow> att_content a \<noteq> [] \<and> name \<noteq> [])"
| "hasLicenseInformation (SpdxLicense lid text) =
     (case text of None \<Rightarrow> False | Some a \<Rightarrow> att_content a \<noteq> [] \<and> lid \<noteq> [])"
| "hasLicenseInformation (LicenseExpression _) = False"

definition hasComponentLicenseIncluded :: "component \<Rightarrow> bool" where
  "hasComponentLicenseIncluded c =
     (if length (clicenses c) < 1 then False
      else list_all hasLicenseInformation (clicenses c))"

text \<open>\<open>ComponentRepository.add\<close>: a set of objects, so an object already present is not added again.\<close>

definition repo_add :: "component list \<Rightarrow> component \<Rightarrow> component list" where
  "repo_add r c = (if cid c \<in> set (map cid r) then r else r @ [c])"

text \<open>
  \<open>checkLicenseGapsInComponents\<close>: the loop over \<open>components\<close> threads the local
  repository \<open>withoutLicense\<close>; each component is added if it is incomplete, then every
  component of the recursive result for its sub-components is added one by one.
\<close>

primrec gaps_comp :: "component \<Rightarrow> component list \<Rightarrow> component list"
  and gaps_comps :: "component list \<Rightarrow> component list \<Rightarrow> component list" where
  "gaps_comp (Component i n v p ls subs) acc =
     fold (\<lambda>x r. repo_add r x) (gaps_comps subs [])
       (if \<not> hasComponentLicenseIncluded (Component i n v p ls subs)
        then repo_add acc (Component i n v p ls subs) else acc)"
| "gaps_comps [] acc = acc"
| "gaps_comps (c # cs) acc = gaps_comps cs (gaps_comp c acc)"

definition checkLicenseGapsInComponents :: "component list \<Rightarrow> component list" where
  "checkLicenseGapsInComponents cs = gaps_comps cs []"

text \<open>\<open>' - ' + name + (version ? '@' + version : '')\<close>: an empty version string is falsy.\<close>

definition gap_line :: "component \<Rightarrow> string" where
  "gap_line c =
     '' - '' @ cname c @
     (case cversion c of None \<Rightarrow> [] | Some v \<Rightarrow> if v = [] then [] else ''@'' @ v)"

definition checkLicenseGaps :: "bom \<Rightarrow> string list \<times> (gap_error + unit)" where
  "checkLicenseGaps b =
     (let g = checkLicenseGapsInComponents (bom_components b) in
      if length g > 0
      then ((''Components without license informations ('' @ dec_string (length g) @ '')'')
              # map gap_line g,
            Inl (LicenseGapFailure ''Found components without license information''))
      else ([], Inr ()))"

subsection \<open>Lemmas on the repository\<close>

definition incomplete :: "component \<Rightarrow> bool" where
  "incomplete c \<longleftrightarrow> \<not> hasComponentLicenseIncluded c"

lemma fold_repo_add_fresh:
  "distinct (map cid (acc @ xs)) \<Longrightarrow> fold (\<lambda>x r. repo_add r x) xs acc = acc @ xs"
proof (induction xs arbitrary: acc)
  case Nil
  then show ?case by simp
next
  case (Cons x xs)
  then have "repo_add acc x = acc @ [x]" by (auto simp: repo_add_def)
  with Cons.IH [of "acc @ [x]"] Cons.prems show ?case by simp
qed

lemma distinct_cid_filter:
  "distinct (map cid (acc @ xs)) \<Longrightarrow> distinct (map cid (acc @ filter P xs))"
  by (auto simp: distinct_map_filter)

lemma set_repo_add: "set (repo_add r c) \<supseteq> set r" and repo_add_nonempty: "repo_add r c \<noteq> []"
  by (auto simp: repo_add_def)

lemma fold_repo_add_mono: "set (fold (\<lambda>x r. repo_add r x) xs acc) \<supseteq> set acc"
proof (induction xs arbitrary: acc)
  case (Cons x xs)
  have "set acc \<subseteq> set (repo_add acc x)" by (rule set_repo_add)
  with Cons.IH [of "repo_add acc x"] show ?case by simp
qed simp

lemma fold_repo_add_nonempty: "acc \<noteq> [] \<Longrightarrow> fold (\<lambda>x r. repo_add r x) xs acc \<noteq> []"
  using fold_repo_add_mono [of acc xs] by auto

lemma fold_repo_add_nonempty2: "xs \<noteq> [] \<Longrightarrow> fold (\<lambda>x r. repo_add r x) xs acc \<noteq> []"
  by (cases xs) (simp_all add: fold_repo_add_nonempty repo_add_nonempty)

subsection \<open>The audit collects exactly the incomplete components, parent first\<close>

lemma gaps_filter:
  "distinct (map cid (acc @ flat_comp c)) \<Longrightarrow>
     gaps_comp c acc = acc @ filter incomplete (flat_comp c)"
  "distinct (map cid (acc @ flat_comps cs)) \<Longrightarrow>
     gaps_comps cs acc = acc @ filter incomplete (flat_comps cs)"
proof (induction c and cs arbitrary: acc and acc rule: flat_comp.induct flat_comps.induct)
  case (Component i n v p ls subs)
  let ?c = "Component i n v p ls subs"
  let ?acc1 = "if incomplete ?c then acc @ [?c] else acc"
  have subs: "gaps_comps subs [] = filter incomplete (flat_comps subs)"
    using Component.IH [of "[]"] Component.prems by simp
  have acc1: "(if \<not> hasComponentLicenseIncluded ?c then repo_add acc ?c else acc) = ?acc1"
    using Component.prems by (auto simp: repo_add_def incomplete_def)
  have "distinct (map cid (?acc1 @ filter incomplete (flat_comps subs)))"
    using distinct_cid_filter [of "acc @ [?c]" "flat_comps subs" incomplete] Component.prems
      distinct_cid_filter [of acc "flat_comps subs" incomplete]
    by auto
  then show ?case
    by (simp add: subs acc1 fold_repo_add_fresh)
next
  case Nil_component
  then show ?case by simp
next
  case (Cons_component c cs)
  have g: "gaps_comp c acc = acc @ filter incomplete (flat_comp c)"
    using Cons_component.prems by (intro Cons_component.IH(1)) auto
  have "distinct (map cid ((acc @ filter incomplete (flat_comp c)) @ flat_comps cs))"
    using Cons_component.prems by (auto simp: distinct_map_filter)
  then have "gaps_comps cs (acc @ filter incomplete (flat_comp c)) =
      (acc @ filter incomplete (flat_comp c)) @ filter incomplete (flat_comps cs)"
    by (rule Cons_component.IH(2))
  then show ?case
    by (simp only: gaps_comps.simps g flat_comps.simps filter_append append_assoc)
qed

subsection \<open>The audit is empty exactly when no component is incomplete\<close>

lemma fold_repo_add_empty_iff:
  "fold (\<lambda>x r. repo_add r x) xs acc = [] \<longleftrightarrow> acc = [] \<and> xs = []"
  using fold_repo_add_nonempty fold_repo_add_nonempty2 by fastforce

lemma gaps_empty_iff:
  "gaps_comp c acc = [] \<longleftrightarrow> acc = [] \<and> (\<forall>x \<in> set (flat_comp c). \<not> incomplete x)"
  "gaps_comps cs acc = [] \<longleftrightarrow> acc = [] \<and> (\<forall>x \<in> set (flat_comps cs). \<not> incomplete x)"
proof (induction c and cs arbitrary: acc and acc rule: flat_comp.induct flat_comps.induct)
  case (Component i n v p ls subs)
  have "(if incomplete (Component i n v p ls subs)
         then repo_add acc (Component i n v p ls subs) else acc) = [] \<longleftrightarrow>
        acc = [] \<and> \<not> incomplete (Component i n v p ls subs)"
    by (simp add: repo_add_nonempty)
  with Component.IH [of "[]"] show ?case
    by (simp add: fold_repo_add_empty_iff incomplete_def)
next
  case Nil_component
  show ?case by simp
next
  case (Cons_component c cs)
  then show ?case by auto
qed

subsection \<open>Properties of the audit\<close>

lemma incomplete_Component:
  "incomplete c \<longleftrightarrow> clicenses c = [] \<or> (\<exists>l \<in> set (clicenses c). \<not> hasLicenseInformation l)"
  by (auto simp: incomplete_def hasComponentLicenseIncluded_def list_all_iff)

lemma gaps_member:
  "wf_components cs \<Longrightarrow> c \<in> set (flat_comps cs) \<Longrightarrow> incomplete c \<Longrightarrow>
     c \<in> set (checkLicenseGapsInComponents cs)"
  by (simp add: checkLicenseGapsInComponents_def gaps_filter(2) wf_components_def)

text \<open>
  C1. On a forest in which every component object occurs once, the audit returns exactly
  the components without complete license evidence, at any depth, in depth-first
  parent-first order; a complete parent does not hide incomplete descendants.
\<close>

theorem checkLicenseGapsInComponents_spec:
  "wf_components cs \<Longrightarrow>
     checkLicenseGapsInComponents cs =
       filter (\<lambda>c. \<not> hasComponentLicenseIncluded c) (flat_comps cs)"
  using gaps_filter(2) [of "[]" cs]
  by (simp add: checkLicenseGapsInComponents_def wf_components_def incomplete_def [abs_def])

theorem checkLicenseGapsInComponents_spec_witness:
  "wf_components [Component 1 ''a'' None [] [] [Component 2 ''b'' None [] [] []]] \<and>
   checkLicenseGapsInComponents [Component 1 ''a'' None [] [] [Component 2 ''b'' None [] [] []]] =
     filter (\<lambda>c. \<not> hasComponentLicenseIncluded c)
       (flat_comps [Component 1 ''a'' None [] [] [Component 2 ''b'' None [] [] []]])"
proof -
  have w: "wf_components [Component 1 ''a'' None [] [] [Component 2 ''b'' None [] [] []]]"
    by (simp add: wf_components_def)
  show ?thesis using checkLicenseGapsInComponents_spec [OF w] w by simp
qed

text \<open>
  C2. \<open>checkLicenseGaps\<close> throws the gap error \<open>LicenseGapFailure\<close> exactly when some
  component of the BOM, at any depth, lacks complete license evidence, and otherwise
  returns normally; it prints lines exactly when it throws.
\<close>

theorem checkLicenseGaps_fails_iff:
  "snd (checkLicenseGaps b) =
     (if \<forall>c \<in> set (flat_comps (bom_components b)). hasComponentLicenseIncluded c then Inr ()
      else Inl (LicenseGapFailure ''Found components without license information'')) \<and>
   (fst (checkLicenseGaps b) = [] \<longleftrightarrow>
     (\<forall>c \<in> set (flat_comps (bom_components b)). hasComponentLicenseIncluded c))"
  using gaps_empty_iff(2) [of "bom_components b" "[]"]
  by (auto simp: checkLicenseGaps_def checkLicenseGapsInComponents_def Let_def incomplete_def)

theorem checkLicenseGaps_fails_iff_witness:
  "snd (checkLicenseGaps \<lparr>bom_components = [Component 1 ''a'' None [] [] []]\<rparr>) =
     Inl (LicenseGapFailure ''Found components without license information'') \<and>
   fst (checkLicenseGaps \<lparr>bom_components = [Component 1 ''a'' None [] [] []]\<rparr>) \<noteq> []"
  using checkLicenseGaps_fails_iff [of "\<lparr>bom_components = [Component 1 ''a'' None [] [] []]\<rparr>"]
  by (simp add: hasComponentLicenseIncluded_def)

text \<open>
  C3. A component that declares a license expression is always reported as a gap, even
  though the specification says expressions are always complete:
  \<open>hasLicenseInformation\<close> returns \<open>false\<close> for every \<open>LicenseExpression\<close>.
\<close>

theorem expression_component_is_gap:
  "wf_components cs \<Longrightarrow> c \<in> set (flat_comps cs) \<Longrightarrow> LicenseExpression e \<in> set (clicenses c) \<Longrightarrow>
     c \<in> set (checkLicenseGapsInComponents cs)"
  by (rule gaps_member) (auto simp: incomplete_Component intro!: bexI [of _ "LicenseExpression e"])

theorem expression_component_is_gap_witness:
  "Component 1 ''a'' None [] [LicenseExpression ''MIT OR Apache-2.0''] []
     \<in> set (checkLicenseGapsInComponents
              [Component 1 ''a'' None [] [LicenseExpression ''MIT OR Apache-2.0''] []])"
  by (rule expression_component_is_gap [where e = "''MIT OR Apache-2.0''"])
     (simp_all add: wf_components_def)

text \<open>C4. A component that declares no license at all is always reported as a gap.\<close>

theorem no_license_component_is_gap:
  "wf_components cs \<Longrightarrow> c \<in> set (flat_comps cs) \<Longrightarrow> clicenses c = [] \<Longrightarrow>
     c \<in> set (checkLicenseGapsInComponents cs)"
  by (rule gaps_member) (auto simp: incomplete_Component)

theorem no_license_component_is_gap_witness:
  "Component 2 ''b'' None [] [] []
     \<in> set (checkLicenseGapsInComponents [Component 1 ''a'' None [] [] [Component 2 ''b'' None [] [] []]])"
  by (rule no_license_component_is_gap) (simp_all add: wf_components_def)

end
