(* ===== verification/NodePath.thy ===== *)
theory NodePath
  imports Prelude
begin

text \<open>
  Node's POSIX \<open>path\<close> functions as the sources call them: \<open>path.join\<close>
  (licenseBuilder.ts line 40) and \<open>join\<close> (licensetexts.ts line 58) build candidate
  paths, \<open>path.extname\<close> (licenseBuilder.ts line 54) picks the content type.
  \<open>join\<close> concatenates its non-empty arguments with \<open>/\<close> and normalises the result:
  empty and \<open>.\<close> segments are dropped, \<open>..\<close> removes the segment before it (or stays,
  in a relative path that has none), a leading and a trailing \<open>/\<close> are kept.
  \<open>extname\<close> is the last \<open>.\<close>-suffix of the last segment, unless that dot starts the
  segment or the segment is \<open>..\<close>. Windows paths are not modelled.
\<close>

fun split_slash :: "string \<Rightarrow> string list" where
  "split_slash [] = [[]]"
| "split_slash (x # xs) =
     (let r = split_slash xs in if x = CHR ''/'' then [] # r else (x # hd r) # tl r)"

fun join_segs :: "string list \<Rightarrow> string" where
  "join_segs [] = []"
| "join_segs [s] = s"
| "join_segs (s # ss) = s @ ''/'' @ join_segs ss"

text \<open>\<open>normalizeString\<close>: the segments kept so far, last one first.\<close>

fun norm_segs :: "bool \<Rightarrow> string list \<Rightarrow> string list \<Rightarrow> string list" where
  "norm_segs up st [] = st"
| "norm_segs up st (s # ss) =
     (if s = [] \<or> s = ''.'' then norm_segs up st ss
      else if s = ''..'' then
        (if st \<noteq> [] \<and> hd st \<noteq> ''..'' then norm_segs up (tl st) ss
         else if up then norm_segs up (''..'' # st) ss
         else norm_segs up st ss)
      else norm_segs up (s # st) ss)"

definition path_normalize :: "string \<Rightarrow> string" where
  "path_normalize p =
     (if p = [] then ''.''
      else
        let absolute = (hd p = CHR ''/'');
            trailing = (last p = CHR ''/'');
            r = join_segs (rev (norm_segs (\<not> absolute) [] (split_slash p)))
        in if r = [] then (if absolute then ''/'' else if trailing then ''./'' else ''.'')
           else (if absolute then ''/'' else []) @ r @ (if trailing then ''/'' else []))"

definition path_join :: "string \<Rightarrow> string \<Rightarrow> string" where
  "path_join a b =
     (let parts = filter (\<lambda>x. x \<noteq> []) [a, b]
      in if parts = [] then ''.'' else path_normalize (join_segs parts))"

definition path_extname :: "string \<Rightarrow> string" where
  "path_extname p =
     (let q = rev (dropWhile (\<lambda>c. c = CHR ''/'') (rev p));
          b = rev (takeWhile (\<lambda>c. c \<noteq> CHR ''/'') (rev q))
      in if CHR ''.'' \<notin> set b then []
         else
           let k = length b - 1 - length (takeWhile (\<lambda>c. c \<noteq> CHR ''.'') (rev b))
           in if k = 0 \<or> b = ''..'' then [] else drop k b)"

subsection \<open>Plain names and canonical directories\<close>

text \<open>
  A directory entry is a plain segment: not empty, not \<open>.\<close> or \<open>..\<close>, without \<open>/\<close>
  (\<open>readdirSync\<close> returns only such names). A canonical directory path is a
  non-empty sequence of plain segments, absolute or relative.
\<close>

definition plain_seg :: "string \<Rightarrow> bool" where
  "plain_seg s \<longleftrightarrow> s \<noteq> [] \<and> s \<noteq> ''.'' \<and> s \<noteq> ''..'' \<and> CHR ''/'' \<notin> set s"

definition canonical_dir :: "string \<Rightarrow> bool" where
  "canonical_dir d \<longleftrightarrow>
     (let ts = (if d \<noteq> [] \<and> hd d = CHR ''/'' then tl (split_slash d) else split_slash d)
      in ts \<noteq> [] \<and> list_all plain_seg ts)"

lemma split_slash_nonempty [simp]: "split_slash s \<noteq> []"
  by (induction s) (auto simp: Let_def)

lemma split_slash_append_slash:
  "split_slash (xs @ CHR ''/'' # ys) = split_slash xs @ split_slash ys"
  by (induction xs) (auto simp: Let_def)

lemma split_slash_no_slash: "CHR ''/'' \<notin> set s \<Longrightarrow> split_slash s = [s]"
  by (induction s) (auto simp: Let_def)

lemma join_segs_Cons_Cons: "join_segs ((x # h) # t) = x # join_segs (h # t)"
  by (cases t) simp_all

lemma join_segs_split_slash [simp]: "join_segs (split_slash s) = s"
proof (induction s)
  case (Cons x xs)
  obtain h t where r: "split_slash xs = h # t"
    using split_slash_nonempty by (metis list.exhaust)
  show ?case
    using Cons.IH by (simp add: r Let_def join_segs_Cons_Cons)
qed simp

lemma join_segs_snoc: "ts \<noteq> [] \<Longrightarrow> join_segs (ts @ [f]) = join_segs ts @ ''/'' @ f"
proof (induction ts rule: join_segs.induct)
  case (3 s v va)
  then show ?case by simp
qed simp_all

lemma norm_segs_plain: "list_all plain_seg ss \<Longrightarrow> norm_segs up st ss = rev ss @ st"
  by (induction ss arbitrary: st) (auto simp: plain_seg_def)

lemma path_normalize_no_trailing:
  assumes "p \<noteq> []" "last p \<noteq> CHR ''/''"
    and "join_segs (rev (norm_segs (hd p \<noteq> CHR ''/'') [] (split_slash p))) = q" "q \<noteq> []"
  shows "path_normalize p = (if hd p = CHR ''/'' then CHR ''/'' # q else q)"
  using assms unfolding path_normalize_def Let_def by simp

text \<open>Joining a canonical directory and a plain name is concatenation with a slash.\<close>

lemma path_join_plain:
  assumes d: "canonical_dir d" and f: "plain_seg f"
  shows "path_join d f = d @ ''/'' @ f"
proof -
  have dne: "d \<noteq> []" using d by (auto simp: canonical_dir_def plain_seg_def)
  have fne: "f \<noteq> []" and fs: "CHR ''/'' \<notin> set f" using f by (auto simp: plain_seg_def)
  then have lastf: "last (d @ ''/'' @ f) \<noteq> CHR ''/''" using last_in_set by fastforce
  have hd: "hd (d @ ''/'' @ f) = hd d" using dne by simp
  have pj: "path_join d f = path_normalize (d @ ''/'' @ f)"
    using dne fne by (simp add: path_join_def)
  have sp: "split_slash (d @ ''/'' @ f) = split_slash d @ [f]"
    using split_slash_append_slash [of d f] split_slash_no_slash [OF fs] by simp
  show ?thesis
  proof (cases "hd d = CHR ''/''")
    case True
    then obtain rest where dr: "d = CHR ''/'' # rest" using dne by (cases d) auto
    let ?ts = "split_slash rest"
    have ts: "?ts \<noteq> []" "list_all plain_seg ?ts"
      using d dr by (auto simp: canonical_dir_def Let_def)
    have "norm_segs False [] (split_slash (d @ ''/'' @ f)) = rev (?ts @ [f])"
      using sp ts f by (simp add: dr Let_def norm_segs_plain)
    moreover have "join_segs (?ts @ [f]) = rest @ ''/'' @ f"
      using ts by (simp add: join_segs_snoc)
    ultimately have "join_segs (rev (norm_segs (hd (d @ ''/'' @ f) \<noteq> CHR ''/'') []
        (split_slash (d @ ''/'' @ f)))) = rest @ ''/'' @ f"
      using hd True by simp
    from path_normalize_no_trailing [OF _ lastf this] show ?thesis
      using pj hd True dr by simp
  next
    case False
    let ?ts = "split_slash d"
    have ts: "?ts \<noteq> []" "list_all plain_seg ?ts"
      using d False by (auto simp: canonical_dir_def Let_def)
    have "norm_segs True [] (split_slash (d @ ''/'' @ f)) = rev (?ts @ [f])"
      using sp ts f by (simp add: norm_segs_plain)
    moreover have "join_segs (?ts @ [f]) = d @ ''/'' @ f"
      using ts by (simp add: join_segs_snoc)
    ultimately have "join_segs (rev (norm_segs (hd (d @ ''/'' @ f) \<noteq> CHR ''/'') []
        (split_slash (d @ ''/'' @ f)))) = d @ ''/'' @ f"
      using hd False by simp
    from path_normalize_no_trailing [OF _ lastf this] show ?thesis
      using pj hd False by simp
  qed
qed

lemma path_extname_plain_suffix:
  assumes f: "plain_seg f"
  shows "path_extname (d @ ''/'' @ f) = path_extname f"
proof -
  have fne: "f \<noteq> []" and fs: "CHR ''/'' \<notin> set f" using f by (auto simp: plain_seg_def)
  obtain x r where rf: "rev f = x # r" using fne by (cases "rev f") auto
  have "x \<in> set f" using rf by (metis list.set_intros(1) set_rev)
  then have x: "x \<noteq> CHR ''/''" using fs by blast
  have dw: "dropWhile (\<lambda>c. c = CHR ''/'') (rev f @ xs) = rev f @ xs" for xs
    using x by (simp add: rf)
  have allf: "\<forall>x\<in>set (rev f). x \<noteq> CHR ''/''" using fs by auto
  have tw: "takeWhile (\<lambda>c. c \<noteq> CHR ''/'') (rev f @ CHR ''/'' # ys) = rev f" for ys
  proof -
    have "takeWhile (\<lambda>c. c \<noteq> CHR ''/'') (rev f @ CHR ''/'' # ys)
        = rev f @ takeWhile (\<lambda>c. c \<noteq> CHR ''/'') (CHR ''/'' # ys)"
      by (rule takeWhile_append2) (use allf in blast)
    then show ?thesis by simp
  qed
  have tw0: "takeWhile (\<lambda>c. c \<noteq> CHR ''/'') (rev f) = rev f"
    using allf by (simp only: takeWhile_eq_all_conv)
  have r: "rev (d @ ''/'' @ f) = rev f @ CHR ''/'' # rev d" by simp
  have q1: "rev (dropWhile (\<lambda>c. c = CHR ''/'') (rev (d @ ''/'' @ f))) = d @ ''/'' @ f"
    using dw [of "CHR ''/'' # rev d"] by (simp only: r) simp
  have b1: "rev (takeWhile (\<lambda>c. c \<noteq> CHR ''/'') (rev (d @ ''/'' @ f))) = f"
    using tw [of "rev d"] by (simp only: r) simp
  have q2: "rev (dropWhile (\<lambda>c. c = CHR ''/'') (rev f)) = f"
    using dw [of "[]"] by simp
  have b2: "rev (takeWhile (\<lambda>c. c \<noteq> CHR ''/'') (rev f)) = f"
    by (simp only: tw0 rev_rev_ident)
  show ?thesis
    unfolding path_extname_def Let_def by (simp only: q1 b1 q2 b2)
qed

lemma norm_segs_append: "norm_segs up st (xs @ ys) = norm_segs up (norm_segs up st xs) ys"
  by (induction up st xs rule: norm_segs.induct) auto

lemma norm_segs_plain_snoc:
  "plain_seg f \<Longrightarrow> norm_segs up st (xs @ [f]) = f # norm_segs up st xs"
  by (simp add: norm_segs_append plain_seg_def)

text \<open>Normalising an absolute path extended by a plain name extends its normal form.\<close>

lemma path_normalize_snoc:
  assumes f: "plain_seg f" and a: "a \<noteq> []" "hd a = CHR ''/''" "last a \<noteq> CHR ''/''"
    and na: "path_normalize a \<noteq> ''/''"
  shows "path_normalize (a @ ''/'' @ f) = path_normalize a @ ''/'' @ f"
proof -
  have fne: "f \<noteq> []" and fs: "CHR ''/'' \<notin> set f" using f by (auto simp: plain_seg_def)
  let ?N = "norm_segs False [] (split_slash a)"
  have sp: "split_slash (a @ CHR ''/'' # f) = split_slash a @ [f]"
    using split_slash_append_slash [of a f] split_slash_no_slash [OF fs] by simp
  have ra: "join_segs (rev ?N) \<noteq> []"
    using a na unfolding path_normalize_def Let_def by (auto split: if_splits)
  then have "rev ?N \<noteq> []" by auto
  then have "join_segs (rev (f # ?N)) = join_segs (rev ?N) @ ''/'' @ f"
    by (simp add: join_segs_snoc)
  moreover have "last (a @ ''/'' @ f) \<noteq> CHR ''/''"
    using fne fs last_in_set by fastforce
  ultimately show ?thesis
    using a ra unfolding path_normalize_def Let_def
    by (simp add: sp norm_segs_plain_snoc [OF f])
qed

end
