(* ===== verification/FileSystem.thy ===== *)
theory FileSystem
  imports NodePath Base64
begin

text \<open>
  The file system as the sources read it: \<open>fs.existsSync\<close>, \<open>fs.realpathSync.native\<close>
  (licensetexts.ts line 59), \<open>fs.readdirSync\<close> (licenseBuilder.ts line 35) and
  \<open>fs.readFileSync\<close> with base64 encoding (licensetexts.ts line 77, licenseBuilder.ts
  line 51). A file system is a list of nodes keyed by their canonical path and a flag
  for case-insensitive name lookup (the default on Windows and macOS). A lookup finds
  the node whose key equals the path, or equals it up to case on a case-insensitive
  file system; \<open>realpathSync.native\<close> returns that node's key, the path in its
  canonical case. The calls fail as Node's do: a missing path is \<open>ENOENT\<close>, listing a
  file is \<open>ENOTDIR\<close>, reading a directory is \<open>EISDIR\<close>. Symbolic links are
  followed as the kernel follows them, up to \<open>ELOOP\<close>; permissions are not modelled.
\<close>

datatype fs_node = File bytes | Dir "string list" | Link string

record fs =
  fs_nodes :: "(string \<times> fs_node) list"
  fs_nocase :: bool

datatype fs_error = ENOENT string | ENOTDIR string | EISDIR string | ELOOP string

text \<open>The node stored under a path (its own key, without following links).\<close>

definition fs_resolve :: "fs \<Rightarrow> string \<Rightarrow> (string \<times> fs_node) option" where
  "fs_resolve s p =
     find (\<lambda>(k, _). if fs_nocase s then ci_eq k p else k = p) (fs_nodes s)"

subsection \<open>Symbolic links\<close>

text \<open>
  Path resolution as the kernel does it for \<open>stat\<close>, \<open>open\<close> and \<open>realpath\<close>: the
  shortest prefix of the path that is a symbolic link is replaced by the link's target
  (an absolute target from the root, a relative one from the link's directory), and the
  path is resolved again; after \<open>MAXSYMLINKS\<close> = 40 replacements the call fails with
  \<open>ELOOP\<close>. A \<open>..\<close> brought in by a target is removed lexically.
\<close>

definition link_at :: "fs \<Rightarrow> string \<Rightarrow> (string \<times> string) option" where
  "link_at s q = (case fs_resolve s q of Some (k, Link t) \<Rightarrow> Some (k, t) | _ \<Rightarrow> None)"

fun scan_links ::
  "fs \<Rightarrow> string list \<Rightarrow> string list \<Rightarrow> (string \<times> string \<times> string list) option" where
  "scan_links s pre [] = None"
| "scan_links s pre (x # rest) =
     (case link_at s (join_segs (pre @ [x])) of
        Some (k, t) \<Rightarrow> Some (k, t, rest)
      | None \<Rightarrow> scan_links s (pre @ [x]) rest)"

definition first_link :: "fs \<Rightarrow> string \<Rightarrow> (string \<times> string \<times> string list) option" where
  "first_link s p = scan_links s [] (split_slash p)"

definition link_dest :: "string \<Rightarrow> string \<Rightarrow> string list \<Rightarrow> string" where
  "link_dest k t rest =
     path_normalize
       ((if t \<noteq> [] \<and> hd t = CHR ''/'' then t else join_segs (butlast (split_slash k)) @ ''/'' @ t)
        @ concat (map (\<lambda>x. ''/'' @ x) rest))"

type_synonym fuel = nat

fun fs_follow :: "fuel \<Rightarrow> fs \<Rightarrow> string \<Rightarrow> string option" where
  "fs_follow 0 s p = (if first_link s p = None then Some p else None)"
| "fs_follow (Suc n) s p =
     (case first_link s p of
        None \<Rightarrow> Some p
      | Some (k, t, rest) \<Rightarrow> fs_follow n s (link_dest k t rest))"

definition MAXSYMLINKS :: fuel where
  "MAXSYMLINKS = 40"

definition fs_lookup :: "fs \<Rightarrow> string \<Rightarrow> fs_error + (string \<times> fs_node)" where
  "fs_lookup s p =
     (case fs_follow MAXSYMLINKS s p of
        None \<Rightarrow> Inl (ELOOP p)
      | Some q \<Rightarrow> (case fs_resolve s q of None \<Rightarrow> Inl (ENOENT p) | Some kn \<Rightarrow> Inr kn))"

subsection \<open>The calls\<close>

text \<open>
  \<open>existsSync\<close> catches every error; the others throw it. A link cannot be the node a
  lookup ends on (the last prefix is the path itself); the \<open>Link\<close> branches are there
  for totality.
\<close>

definition existsSync :: "fs \<Rightarrow> string \<Rightarrow> bool" where
  "existsSync s p \<longleftrightarrow> (case fs_lookup s p of Inl _ \<Rightarrow> False | Inr _ \<Rightarrow> True)"

definition realpathSync_native :: "fs \<Rightarrow> string \<Rightarrow> fs_error + string" where
  "realpathSync_native s p =
     (case fs_lookup s p of Inl e \<Rightarrow> Inl e | Inr (k, _) \<Rightarrow> Inr k)"

definition readdirSync :: "fs \<Rightarrow> string \<Rightarrow> fs_error + string list" where
  "readdirSync s p =
     (case fs_lookup s p of
        Inl e \<Rightarrow> Inl e
      | Inr (_, Dir es) \<Rightarrow> Inr es
      | Inr (_, File _) \<Rightarrow> Inl (ENOTDIR p)
      | Inr (_, Link _) \<Rightarrow> Inl (ELOOP p))"

definition readFileSync_base64 :: "fs \<Rightarrow> string \<Rightarrow> fs_error + string" where
  "readFileSync_base64 s p =
     (case fs_lookup s p of
        Inl e \<Rightarrow> Inl e
      | Inr (_, File bs) \<Rightarrow> Inr (base64_encode bs)
      | Inr (_, Dir _) \<Rightarrow> Inl (EISDIR p)
      | Inr (_, Link _) \<Rightarrow> Inl (ELOOP p))"

subsection \<open>Well-formed file systems\<close>

text \<open>
  Keys are canonical paths and unique (up to case on a case-insensitive file system);
  a directory lists distinct plain names, each of which is a node under the directory;
  there is no symbolic link (\<open>no_links\<close>: the results that hold only without links
  assume \<open>wf_fs\<close>, the ones about links state what they need).
\<close>

definition no_links :: "fs \<Rightarrow> bool" where
  "no_links s \<longleftrightarrow> (\<forall>(k, n) \<in> set (fs_nodes s). \<forall>t. n \<noteq> Link t)"

definition fs_key :: "fs \<Rightarrow> string \<Rightarrow> string" where
  "fs_key s k = (if fs_nocase s then js_lower k else k)"

definition wf_fs :: "fs \<Rightarrow> bool" where
  "wf_fs s \<longleftrightarrow>
     distinct (map (fs_key s \<circ> fst) (fs_nodes s)) \<and>
     list_all (\<lambda>(k, n). canonical_dir k \<and>
        (case n of File _ \<Rightarrow> True
         | Dir es \<Rightarrow> distinct (map (fs_key s) es) \<and>
             list_all (\<lambda>e. plain_seg e \<and> list_ex (\<lambda>(k', _). k' = k @ ''/'' @ e) (fs_nodes s)) es
       | Link _ \<Rightarrow> False))
       (fs_nodes s)"

lemma fs_key_eq: "(if fs_nocase s then ci_eq k p else k = p) \<longleftrightarrow> fs_key s k = fs_key s p"
  by (simp add: ci_eq_def fs_key_def)

lemma fs_resolve_mem: "fs_resolve s q = Some kn \<Longrightarrow> kn \<in> set (fs_nodes s)"
  unfolding fs_resolve_def by (auto dest: find_Some_mem)

lemma wf_fs_no_links: "wf_fs s \<Longrightarrow> no_links s"
  by (fastforce simp: wf_fs_def no_links_def list_all_iff)

lemma link_at_no_links: "no_links s \<Longrightarrow> link_at s q = None"
  by (auto simp: link_at_def no_links_def split: option.splits fs_node.splits dest!: fs_resolve_mem)

lemma scan_links_no_links: "no_links s \<Longrightarrow> scan_links s pre xs = None"
  by (induction xs arbitrary: pre) (simp_all add: link_at_no_links)

lemma fs_follow_no_links: "no_links s \<Longrightarrow> fs_follow n s p = Some p"
  by (cases n) (simp_all add: first_link_def scan_links_no_links)

text \<open>Without links every call is a direct lookup of the path.\<close>

lemma fs_lookup_no_links:
  "no_links s \<Longrightarrow> fs_lookup s p = (case fs_resolve s p of None \<Rightarrow> Inl (ENOENT p) | Some kn \<Rightarrow> Inr kn)"
  by (simp add: fs_lookup_def fs_follow_no_links)

lemma existsSync_nl: "no_links s \<Longrightarrow> existsSync s p \<longleftrightarrow> fs_resolve s p \<noteq> None"
  by (simp add: existsSync_def fs_lookup_no_links split: option.splits)

lemma realpathSync_native_nl:
  "no_links s \<Longrightarrow> realpathSync_native s p =
     (case fs_resolve s p of None \<Rightarrow> Inl (ENOENT p) | Some (k, _) \<Rightarrow> Inr k)"
  by (simp add: realpathSync_native_def fs_lookup_no_links split: option.splits)

lemma readdirSync_nl:
  "no_links s \<Longrightarrow> readdirSync s p =
     (case fs_resolve s p of
        None \<Rightarrow> Inl (ENOENT p)
      | Some (_, Dir es) \<Rightarrow> Inr es
      | Some (_, File _) \<Rightarrow> Inl (ENOTDIR p)
      | Some (_, Link _) \<Rightarrow> Inl (ELOOP p))"
  by (simp add: readdirSync_def fs_lookup_no_links split: option.splits)

lemma readFileSync_base64_nl:
  "no_links s \<Longrightarrow> readFileSync_base64 s p =
     (case fs_resolve s p of
        None \<Rightarrow> Inl (ENOENT p)
      | Some (_, File bs) \<Rightarrow> Inr (base64_encode bs)
      | Some (_, Dir _) \<Rightarrow> Inl (EISDIR p)
      | Some (_, Link _) \<Rightarrow> Inl (ELOOP p))"
  by (simp add: readFileSync_base64_def fs_lookup_no_links split: option.splits)

lemmas fs_calls_nl = existsSync_nl realpathSync_native_nl readdirSync_nl readFileSync_base64_nl

lemma fs_follow_numeral:
  "fs_follow (numeral w) s p =
     (case first_link s p of
        None \<Rightarrow> Some p
      | Some (k, t, rest) \<Rightarrow> fs_follow (pred_numeral w) s (link_dest k t rest))"
  by (simp add: numeral_eq_Suc)

lemma readFileSync_base64_Inr: "readFileSync_base64 s f = Inr c \<Longrightarrow> \<exists>bs. c = base64_encode bs"
  by (auto simp: readFileSync_base64_def split: sum.splits fs_node.splits)

lemma readFileSync_base64_nonempty:
  "readFileSync_base64 s f = Inr c \<Longrightarrow> \<forall>(k, n) \<in> set (fs_nodes s). n \<noteq> File [] \<Longrightarrow> c \<noteq> []"
  by (auto simp: readFileSync_base64_def fs_lookup_def split: option.splits fs_node.splits sum.splits
      dest!: fs_resolve_mem)

lemma fs_resolve_exact:
  assumes "wf_fs s" "(p, n) \<in> set (fs_nodes s)"
  shows "fs_resolve s p = Some (p, n)"
proof -
  have inj: "inj_on (fs_key s \<circ> fst) (set (fs_nodes s))"
    using assms(1) by (simp add: wf_fs_def distinct_map)
  show ?thesis
    unfolding fs_resolve_def
  proof (rule find_unique)
    show "(p, n) \<in> set (fs_nodes s)" by (rule assms(2))
    show "case (p, n) of (k, _) \<Rightarrow> if fs_nocase s then ci_eq k p else k = p" by simp
    fix y assume "y \<in> set (fs_nodes s)" "case y of (k, _) \<Rightarrow> if fs_nocase s then ci_eq k p else k = p"
    then show "y = (p, n)"
      using inj_onD [OF inj _ _ assms(2)] by (auto simp: fs_key_eq)
  qed
qed

end
