(* ===== verification/LicenseTexts.thy ===== *)
theory LicenseTexts
  imports FileSystem BomModel
begin

text \<open>
  The attach pass of \<open>src/src/licensetexts.ts\<close> (lines 26--121), the one the
  generator runs before the audit. \<open>getComponentInstallPath\<close> reads the install path
  from the component's properties; \<open>searchLicenseSources\<close> builds candidate file names
  from nine spellings of LICENSE, LICENCE and NOTICE, three name variants and four
  extensions and keeps, in a \<open>Map\<close> from path to content type, those that exist with
  exactly this spelling (\<open>existsSync\<close> and \<open>realpathSync.native(..).endsWith(..)\<close>);
  \<open>addLicTextBasedOnLicenseFiles\<close> reads every match in turn and sets it as the
  license text, so the last match is the one kept; \<open>addLicenseTextToComponent\<close> does
  this for a component with exactly one named or SPDX license, and
  \<open>addLicenseTextsToComponents\<close> walks the tree parent first. A thrown file-system
  error is \<open>Inl\<close>; it aborts the walk.
\<close>

definition PackageInstallPath :: string where
  "PackageInstallPath = ''cdx:npm:package:path''"

fun installPathOf :: "(string \<times> string) list \<Rightarrow> string" where
  "installPathOf [] = []"
| "installPathOf ((n, v) # ps) = (if n = PackageInstallPath then v else installPathOf ps)"

definition getComponentInstallPath :: "component \<Rightarrow> string" where
  "getComponentInstallPath c = installPathOf (cproperties c)"

definition old_typical_filenames :: "string list" where
  "old_typical_filenames =
     [''LICENSE'', ''License'', ''license'', ''LICENCE'', ''Licence'', ''licence'',
      ''NOTICE'', ''Notice'', ''notice'']"

text \<open>\<open>Object.entries\<close> of the content-type object: type first, extension second.\<close>

definition old_content_types :: "(string \<times> string) list" where
  "old_content_types =
     [(''text/plain'', ''''), (''text/txt'', ''.txt''), (''text/markdown'', ''.md''),
      (''text/xml'', ''.xml'')]"

text \<open>The candidate paths with their content types, in the order of the three nested loops.\<close>

definition old_candidates :: "string \<Rightarrow> string \<Rightarrow> (string \<times> string) list" where
  "old_candidates pkgPath licenseName =
     concat (map (\<lambda>t. concat (map (\<lambda>v. map (\<lambda>(ct, ext). (path_join pkgPath (v @ ext), ct))
                                         old_content_types)
                           [t, t @ ''.'' @ licenseName, t @ ''-'' @ licenseName]))
             old_typical_filenames)"

fun old_search_loop ::
  "fs \<Rightarrow> (string \<times> string) list \<Rightarrow> (string \<times> string) list \<Rightarrow> fs_error + (string \<times> string) list" where
  "old_search_loop s m [] = Inr m"
| "old_search_loop s m ((filename, ct) # cs) =
     (if existsSync s filename then
        (case realpathSync_native s filename of
           Inl e \<Rightarrow> Inl e
         | Inr r \<Rightarrow> old_search_loop s (if ends_with r filename then amap_set filename ct m else m) cs)
      else old_search_loop s m cs)"

definition searchLicenseSources_old :: "fs \<Rightarrow> string \<Rightarrow> string \<Rightarrow> fs_error + (string \<times> string) list" where
  "searchLicenseSources_old s pkgPath licenseName =
     (if length pkgPath < 1 then Inr [] else old_search_loop s [] (old_candidates pkgPath licenseName))"

fun old_attach_loop :: "fs \<Rightarrow> license \<Rightarrow> (string \<times> string) list \<Rightarrow> fs_error + license" where
  "old_attach_loop s l [] = Inr l"
| "old_attach_loop s l ((filename, ct) # ms) =
     (case readFileSync_base64 s filename of
        Inl e \<Rightarrow> Inl e
      | Inr content \<Rightarrow>
          old_attach_loop s
            (set_license_text
               \<lparr>att_content = content, att_encoding = Base64, att_content_type = Some ct\<rparr> l) ms)"

definition addLicTextBasedOnLicenseFiles :: "fs \<Rightarrow> license \<Rightarrow> string \<Rightarrow> fs_error + license" where
  "addLicTextBasedOnLicenseFiles s l installPath =
     (case searchLicenseSources_old s installPath [] of
        Inl e \<Rightarrow> Inl e
      | Inr m \<Rightarrow> old_attach_loop s l m)"

definition addLicenseTextToComponent :: "fs \<Rightarrow> component \<Rightarrow> fs_error + component" where
  "addLicenseTextToComponent s c =
     (if length (clicenses c) = 1 \<and> \<not> is_expression (hd (clicenses c)) then
        (case addLicTextBasedOnLicenseFiles s (hd (clicenses c)) (getComponentInstallPath c) of
           Inl e \<Rightarrow> Inl e
         | Inr l' \<Rightarrow> Inr (Component (cid c) (cname c) (cversion c) (cproperties c) [l'] (ccomponents c)))
      else Inr c)"

primrec addLicenseTextsToComponent :: "fs \<Rightarrow> component \<Rightarrow> fs_error + component"
  and addLicenseTextsToComponents :: "fs \<Rightarrow> component list \<Rightarrow> fs_error + component list" where
  "addLicenseTextsToComponent s (Component i n v p ls subs) =
     (case addLicenseTextToComponent s (Component i n v p ls subs) of
        Inl e \<Rightarrow> Inl e
      | Inr c' \<Rightarrow>
          (case addLicenseTextsToComponents s subs of
             Inl e \<Rightarrow> Inl e
           | Inr subs' \<Rightarrow> Inr (Component i n v p (clicenses c') subs')))"
| "addLicenseTextsToComponents s [] = Inr []"
| "addLicenseTextsToComponents s (c # cs) =
     (case addLicenseTextsToComponent s c of
        Inl e \<Rightarrow> Inl e
      | Inr c' \<Rightarrow>
          (case addLicenseTextsToComponents s cs of
             Inl e \<Rightarrow> Inl e
           | Inr cs' \<Rightarrow> Inr (c' # cs')))"

text \<open>\<open>addLicenseTextsToBom\<close>: the walk, then \<open>console.log(packageFile)\<close>.\<close>

definition addLicenseTextsToBom :: "fs \<Rightarrow> bom \<Rightarrow> string \<Rightarrow> string list \<times> (fs_error + bom)" where
  "addLicenseTextsToBom s b packageFile =
     (case addLicenseTextsToComponents s (bom_components b) of
        Inl e \<Rightarrow> ([], Inl e)
      | Inr cs \<Rightarrow> ([packageFile], Inr (b\<lparr>bom_components := cs\<rparr>)))"

subsection \<open>The search matches the exact spelling, on either kind of file system\<close>

definition fs_has :: "fs \<Rightarrow> string \<Rightarrow> bool" where
  "fs_has s p \<longleftrightarrow> p \<in> set (map fst (fs_nodes s))"

text \<open>What the search should find: the candidates present with exactly this spelling.\<close>

definition old_exact_hits :: "fs \<Rightarrow> string \<Rightarrow> string \<Rightarrow> (string \<times> string) list" where
  "old_exact_hits s pkgPath licenseName =
     (if pkgPath = [] then []
      else fold (\<lambda>(f, ct) m. if fs_has s f then amap_set f ct m else m)
             (old_candidates pkgPath licenseName) [])"

text \<open>
  The attach pass can read every file it may match: each candidate of the component's
  install path that exists with this spelling is a file (not, say, a directory named
  \<open>LICENSE\<close>, which \<open>readFileSync\<close> refuses with \<open>EISDIR\<close>).
\<close>

definition old_reads_files :: "fs \<Rightarrow> component \<Rightarrow> bool" where
  "old_reads_files s c \<longleftrightarrow>
     (\<forall>(f, ct) \<in> set (old_candidates (getComponentInstallPath c) []).
        fs_has s f \<longrightarrow> (\<exists>bs. (f, File bs) \<in> set (fs_nodes s)))"

lemma fs_key_length: "fs_key s k = fs_key s p \<Longrightarrow> length k = length p"
  by (metis fs_key_def length_js_lower)

lemma old_candidate_check:
  assumes "wf_fs s" "existsSync s f"
  shows "\<exists>r. realpathSync_native s f = Inr r \<and> (ends_with r f \<longleftrightarrow> fs_has s f)"
proof -
  obtain k n where res: "fs_resolve s f = Some (k, n)"
    using assms(2) existsSync_nl [OF wf_fs_no_links [OF assms(1)]] by auto
  then have mem: "(k, n) \<in> set (fs_nodes s)" and key: "fs_key s k = fs_key s f"
    using find_Some_mem [of _ "fs_nodes s" "(k, n)"] by (auto simp: fs_resolve_def fs_key_eq)
  have "ends_with k f \<longleftrightarrow> k = f"
    using fs_key_length [OF key] by (rule ends_with_same_length)
  also have "\<dots> \<longleftrightarrow> fs_has s f"
  proof
    assume "k = f" then show "fs_has s f" using mem by (force simp: fs_has_def)
  next
    assume "fs_has s f"
    then obtain n' where "(f, n') \<in> set (fs_nodes s)" by (auto simp: fs_has_def)
    with assms(1) res show "k = f" by (simp add: fs_resolve_exact)
  qed
  finally show ?thesis
    using res by (simp add: realpathSync_native_nl [OF wf_fs_no_links [OF assms(1)]])
qed

lemma not_exists_not_has: "wf_fs s \<Longrightarrow> \<not> existsSync s f \<Longrightarrow> \<not> fs_has s f"
  by (auto simp: existsSync_nl wf_fs_no_links fs_has_def dest: fs_resolve_exact)

lemma old_search_loop_exact:
  "wf_fs s \<Longrightarrow>
     old_search_loop s m cs = Inr (fold (\<lambda>(f, ct) m. if fs_has s f then amap_set f ct m else m) cs m)"
proof (induction cs arbitrary: m)
  case (Cons c cs)
  obtain f ct where c: "c = (f, ct)" by (cases c)
  show ?case
  proof (cases "existsSync s f")
    case True
    with Cons.prems obtain r where "realpathSync_native s f = Inr r" "ends_with r f \<longleftrightarrow> fs_has s f"
      using old_candidate_check by blast
    with True Cons show ?thesis by (simp add: c)
  next
    case False
    with Cons show ?thesis by (simp add: c not_exists_not_has)
  qed
qed simp

lemma searchLicenseSources_old_fold:
  "wf_fs s \<Longrightarrow> searchLicenseSources_old s pkgPath licenseName =
     Inr (if pkgPath = [] then []
          else fold (\<lambda>(f, ct) m. if fs_has s f then amap_set f ct m else m)
                 (old_candidates pkgPath licenseName) [])"
  by (simp add: searchLicenseSources_old_def old_search_loop_exact)

text \<open>
  C5. On a well-formed file system the old search never fails and keeps exactly the
  candidates that exist with their exact spelling: the \<open>realpathSync.native\<close> check
  turns the case-insensitive lookup of Windows and macOS into an exact one, so the
  result does not depend on the file system's case sensitivity.
\<close>

theorem searchLicenseSources_old_exact:
  "wf_fs s \<Longrightarrow> searchLicenseSources_old s pkgPath licenseName = Inr (old_exact_hits s pkgPath licenseName)"
  by (simp add: searchLicenseSources_old_fold old_exact_hits_def)

theorem searchLicenseSources_old_exact_witness:
  "searchLicenseSources_old
     \<lparr>fs_nodes = [(''/p'', Dir [''LICENSE'']), (''/p/LICENSE'', File [77])], fs_nocase = True\<rparr> ''/p'' [] =
   Inr (old_exact_hits
     \<lparr>fs_nodes = [(''/p'', Dir [''LICENSE'']), (''/p/LICENSE'', File [77])], fs_nocase = True\<rparr> ''/p'' [])"
  by (rule searchLicenseSources_old_exact)
     (simp add: wf_fs_def canonical_dir_def plain_seg_def fs_key_def js_lower_def js_lower_char_def)

subsection \<open>The walk changes license texts only\<close>

lemma addLicenseTextToComponent_frame:
  "addLicenseTextToComponent s c = Inr c' \<Longrightarrow>
     cid c' = cid c \<and> cname c' = cname c \<and> cversion c' = cversion c \<and>
     cproperties c' = cproperties c \<and> ccomponents c' = ccomponents c \<and>
     length (clicenses c') = length (clicenses c)"
  by (auto simp: addLicenseTextToComponent_def split: if_splits sum.splits)

lemma attach_skeleton:
  "addLicenseTextsToComponent s c = Inr c' \<Longrightarrow> skeleton c' = skeleton c"
  "addLicenseTextsToComponents s cs = Inr cs' \<Longrightarrow> skeletons cs' = skeletons cs"
  by (induction c and cs arbitrary: c' and cs' rule: flat_comp.induct flat_comps.induct)
     (auto split: sum.splits)

subsection \<open>Only single-license components, and the last match wins\<close>

text \<open>
  C6. A component that does not declare exactly one license, or whose one license is
  an expression, is left as it is: the specification's attacher handles every named or
  SPDX license of every component.
\<close>

theorem addLicenseTextToComponent_skip:
  "length (clicenses c) \<noteq> 1 \<or> is_expression (hd (clicenses c)) \<Longrightarrow> addLicenseTextToComponent s c = Inr c"
  by (auto simp: addLicenseTextToComponent_def)

theorem addLicenseTextToComponent_skip_witness:
  "addLicenseTextToComponent \<lparr>fs_nodes = [(''/p'', Dir [''LICENSE'']), (''/p/LICENSE'', File [77])], fs_nocase = False\<rparr>
     (Component 1 ''a'' None [(PackageInstallPath, ''/p'')] [NamedLicense ''MIT'' None, SpdxLicense ''ISC'' None] [])
   = Inr (Component 1 ''a'' None [(PackageInstallPath, ''/p'')] [NamedLicense ''MIT'' None, SpdxLicense ''ISC'' None] [])"
  by (rule addLicenseTextToComponent_skip) simp

lemma keys_amap_set: "fst ` set (amap_set k v m) = insert k (fst ` set m)"
  using map_fst_amap_set [of k v m] by (simp flip: set_map) auto

lemma fold_amap_set_keys:
  "fst ` set (fold (\<lambda>(f, ct) m. if P f then amap_set f ct m else m) cs m0) =
     fst ` set m0 \<union> {f. \<exists>ct. (f, ct) \<in> set cs \<and> P f}"
proof (induction cs arbitrary: m0)
  case (Cons x cs)
  obtain f ct where x: "x = (f, ct)" by (cases x)
  let ?m = "if P f then amap_set f ct m0 else m0"
  have "fst ` set ?m = fst ` set m0 \<union> (if P f then {f} else {})"
    by (simp add: keys_amap_set)
  then show ?case
    using Cons.IH [of ?m] by (auto simp: x)
qed simp

lemma old_attach_loop_reads:
  "old_attach_loop s l m = Inr l' \<Longrightarrow> (f, ct) \<in> set m \<Longrightarrow> \<exists>c. readFileSync_base64 s f = Inr c"
  by (induction m arbitrary: l) (auto split: sum.splits)

lemma old_attach_loop_key: "old_attach_loop s l m = Inr l' \<Longrightarrow> license_key l' = license_key l"
  by (induction m arbitrary: l) (auto split: sum.splits)

lemma old_attach_loop_last:
  "old_attach_loop s l m = Inr l' \<Longrightarrow> m \<noteq> [] \<Longrightarrow> \<not> is_expression l \<Longrightarrow>
     readFileSync_base64 s (fst (last m)) = Inr c \<Longrightarrow>
     license_text l' = Some \<lparr>att_content = c, att_encoding = Base64, att_content_type = Some (snd (last m))\<rparr>"
proof (induction m arbitrary: l)
  case (Cons x m)
  obtain f ct where x: "x = (f, ct)" by (cases x)
  show ?case
  proof (cases m)
    case Nil
    with Cons.prems show ?thesis by (auto simp: x set_license_text_text split: sum.splits)
  next
    case (Cons y ys)
    with Cons.prems Cons.IH show ?thesis by (auto simp: x split: sum.splits)
  qed
qed simp

text \<open>
  C7. When several license files match, every one is read and the text of the last
  match in candidate order is the one attached; the specification says the first.
\<close>

theorem addLicTextBasedOnLicenseFiles_last:
  "searchLicenseSources_old s installPath [] = Inr m \<Longrightarrow> m \<noteq> [] \<Longrightarrow> \<not> is_expression l \<Longrightarrow>
   addLicTextBasedOnLicenseFiles s l installPath = Inr l' \<Longrightarrow>
   readFileSync_base64 s (fst (last m)) = Inr c \<Longrightarrow>
   license_text l' = Some \<lparr>att_content = c, att_encoding = Base64, att_content_type = Some (snd (last m))\<rparr>"
  by (simp add: addLicTextBasedOnLicenseFiles_def old_attach_loop_last)

theorem addLicTextBasedOnLicenseFiles_last_witness:
  "license_text (NamedLicense ''MIT''
      (Some \<lparr>att_content = ''Tg=='', att_encoding = Base64, att_content_type = Some ''text/plain''\<rparr>))
   = Some \<lparr>att_content = ''Tg=='', att_encoding = Base64, att_content_type = Some ''text/plain''\<rparr>"
proof -
  let ?s = "\<lparr>fs_nodes = [(''/p'', Dir [''LICENSE'', ''NOTICE'']), (''/p/LICENSE'', File [77]),
                          (''/p/NOTICE'', File [78])], fs_nocase = True\<rparr>"
  have wf: "wf_fs ?s"
    by (simp add: wf_fs_def canonical_dir_def plain_seg_def fs_key_def js_lower_def js_lower_char_def)
  have cd: "canonical_dir ''/p''" by (simp add: canonical_dir_def plain_seg_def)
  have h1: "searchLicenseSources_old ?s ''/p'' [] =
      Inr [(''/p/LICENSE'', ''text/plain''), (''/p/NOTICE'', ''text/plain'')]"
    by (simp add: searchLicenseSources_old_fold [OF wf] old_candidates_def
        old_typical_filenames_def old_content_types_def path_join_plain [OF cd] plain_seg_def fs_has_def)
  have r1: "readFileSync_base64 ?s ''/p/LICENSE'' = Inr ''TQ==''"
    and r2: "readFileSync_base64 ?s ''/p/NOTICE'' = Inr ''Tg==''"
    by (simp_all add: readFileSync_base64_nl no_links_def fs_resolve_def ci_eq_def js_lower_def js_lower_char_def
        b64_char_def b64_alphabet_def b64_s1_def)
  have h3: "addLicTextBasedOnLicenseFiles ?s (NamedLicense ''MIT'' None) ''/p'' =
      Inr (NamedLicense ''MIT''
        (Some \<lparr>att_content = ''Tg=='', att_encoding = Base64, att_content_type = Some ''text/plain''\<rparr>))"
    by (simp add: addLicTextBasedOnLicenseFiles_def h1 r1 r2)
  show ?thesis
    using addLicTextBasedOnLicenseFiles_last [OF h1 _ _ h3] r2 by simp
qed

subsection \<open>The attach pass returns when every match is a file\<close>

lemma old_attach_loop_ok:
  "\<forall>(f, ct) \<in> set m. \<exists>c. readFileSync_base64 s f = Inr c \<Longrightarrow> \<exists>l'. old_attach_loop s l m = Inr l'"
  by (induction m arbitrary: l) auto

lemma addLicenseTextToComponent_ok:
  assumes wf: "wf_fs s" and rf: "old_reads_files s c"
  shows "\<exists>c'. addLicenseTextToComponent s c = Inr c'"
proof -
  let ?p = "getComponentInstallPath c"
  define m where "m = (if ?p = [] then []
     else fold (\<lambda>(f, ct) m. if fs_has s f then amap_set f ct m else m) (old_candidates ?p []) [])"
  have reads: "\<forall>(f, ct) \<in> set m. \<exists>cnt. readFileSync_base64 s f = Inr cnt"
  proof (intro ballI, clarify)
    fix f ct assume "(f, ct) \<in> set m"
    then have "f \<in> fst ` set m" by force
    then obtain ct' where "(f, ct') \<in> set (old_candidates ?p [])" "fs_has s f"
      by (auto simp: m_def fold_amap_set_keys split: if_splits)
    with rf obtain bs where "(f, File bs) \<in> set (fs_nodes s)"
      by (auto simp: old_reads_files_def)
    then show "\<exists>cnt. readFileSync_base64 s f = Inr cnt"
      using fs_resolve_exact [OF wf] by (simp add: readFileSync_base64_nl [OF wf_fs_no_links [OF wf]])
  qed
  have "searchLicenseSources_old s ?p [] = Inr m"
    by (simp add: searchLicenseSources_old_fold [OF wf] m_def)
  then obtain l' where "addLicTextBasedOnLicenseFiles s (hd (clicenses c)) ?p = Inr l'"
    using old_attach_loop_ok [OF reads] by (auto simp: addLicTextBasedOnLicenseFiles_def)
  then show ?thesis
    by (simp add: addLicenseTextToComponent_def)
qed

lemma attach_ok:
  "wf_fs s \<Longrightarrow> list_all (old_reads_files s) (flat_comp c) \<Longrightarrow>
     \<exists>c'. addLicenseTextsToComponent s c = Inr c'"
  "wf_fs s \<Longrightarrow> list_all (old_reads_files s) (flat_comps cs) \<Longrightarrow>
     \<exists>cs'. addLicenseTextsToComponents s cs = Inr cs'"
proof (induction c and cs rule: flat_comp.induct flat_comps.induct)
  case (Component i n v p ls subs)
  then obtain c' where "addLicenseTextToComponent s (Component i n v p ls subs) = Inr c'"
    using addLicenseTextToComponent_ok by fastforce
  moreover obtain subs' where "addLicenseTextsToComponents s subs = Inr subs'"
    using Component by auto
  ultimately show ?case by simp
next
  case Nil_component
  then show ?case by simp
next
  case (Cons_component c cs)
  then obtain c' cs' where "addLicenseTextsToComponent s c = Inr c'"
    "addLicenseTextsToComponents s cs = Inr cs'" by auto
  then show ?case by simp
qed

subsection \<open>Searches that record nothing\<close>

lemma old_search_loop_none:
  "\<forall>(f, ct) \<in> set cs. existsSync s f \<longrightarrow> (\<exists>r. realpathSync_native s f = Inr r \<and> \<not> ends_with r f)
   \<Longrightarrow> old_search_loop s m cs = Inr m"
  by (induction cs) auto

text \<open>
  What the search loop records is a candidate that exists and whose real path ends with
  its name, or was recorded before; on any file system, links included.
\<close>

lemma old_search_loop_sound:
  "old_search_loop s m0 cs = Inr m \<Longrightarrow> x \<in> set m \<Longrightarrow>
     x \<in> set m0 \<or> (x \<in> set cs \<and> existsSync s (fst x) \<and>
       (\<exists>r. realpathSync_native s (fst x) = Inr r \<and> ends_with r (fst x)))"
proof (induction cs arbitrary: m0)
  case (Cons c cs)
  obtain f ct where c: "c = (f, ct)" by (cases c)
  show ?case
  proof (cases "existsSync s f")
    case True
    with Cons.prems obtain r where r: "realpathSync_native s f = Inr r"
      and rec: "old_search_loop s (if ends_with r f then amap_set f ct m0 else m0) cs = Inr m"
      by (simp add: c split: sum.splits)
    show ?thesis
    proof (cases "ends_with r f")
      case e: True
      with Cons.IH [OF _ Cons.prems(2)] rec
      have "x \<in> set (amap_set f ct m0) \<or> (x \<in> set cs \<and> existsSync s (fst x) \<and>
          (\<exists>r. realpathSync_native s (fst x) = Inr r \<and> ends_with r (fst x)))" by simp
      with set_amap_set [of f ct m0] True r e show ?thesis by (auto simp: c)
    next
      case False
      with Cons.IH [OF _ Cons.prems(2)] rec show ?thesis by (auto simp: c)
    qed
  next
    case False
    with Cons.prems have "old_search_loop s m0 cs = Inr m" by (simp add: c)
    from Cons.IH [OF this Cons.prems(2)] show ?thesis by (auto simp: c)
  qed
qed simp

text \<open>Every candidate of the attach pass is the install directory joined with a plain name.\<close>

lemma old_candidates_plain:
  assumes d: "canonical_dir d" and c: "(f, ct) \<in> set (old_candidates d [])"
  shows "\<exists>nm. plain_seg nm \<and> f = d @ ''/'' @ nm"
proof -
  have "\<exists>t \<in> set old_typical_filenames. \<exists>v \<in> set [t, t @ ''.'', t @ ''-''].
          (f, ct) \<in> set (map (\<lambda>(ct, ext). (path_join d (v @ ext), ct)) old_content_types)"
    using c unfolding old_candidates_def set_concat set_map image_image UN_iff by simp
  then obtain t v where t: "t \<in> set old_typical_filenames" and v: "v \<in> set [t, t @ ''.'', t @ ''-'']"
    and pv: "(f, ct) \<in> set (map (\<lambda>(ct, ext). (path_join d (v @ ext), ct)) old_content_types)"
    by blast
  then obtain ext ct' where ce: "(ct', ext) \<in> set old_content_types" and f: "f = path_join d (v @ ext)"
    by auto
  have e: "ext \<in> {[], ''.txt'', ''.md'', ''.xml''}" using ce by (auto simp: old_content_types_def)
  have "plain_seg (v @ ext)"
    using t v e by (auto simp: old_typical_filenames_def plain_seg_def)
  then show ?thesis using f path_join_plain [OF d] by blast
qed

subsection \<open>Attached texts are well-typed\<close>

lemma snd_amap_set: "snd ` set (amap_set k v m) \<subseteq> insert v (snd ` set m)"
  using set_amap_set [of k v m] by force

lemma old_search_loop_cts:
  "old_search_loop s m0 cs = Inr m \<Longrightarrow> snd ` set m \<subseteq> snd ` set m0 \<union> snd ` set cs"
proof (induction cs arbitrary: m0)
  case (Cons c cs)
  obtain f ct where c: "c = (f, ct)" by (cases c)
  show ?case
  proof (cases "existsSync s f")
    case True
    with Cons.prems obtain r where
      rec: "old_search_loop s (if ends_with r f then amap_set f ct m0 else m0) cs = Inr m"
      by (simp add: c split: sum.splits)
    have "snd ` set (if ends_with r f then amap_set f ct m0 else m0) \<subseteq> insert ct (snd ` set m0)"
      using snd_amap_set [of f ct m0] by auto
    with Cons.IH [OF rec] show ?thesis by (simp add: c) blast
  next
    case False
    with Cons.prems have "old_search_loop s m0 cs = Inr m" by (simp add: c)
    with Cons.IH show ?thesis by (simp add: c) blast
  qed
qed simp

lemma old_candidates_cts: "snd ` set (old_candidates p n) \<subseteq> set spec_content_types"
proof -
  have "snd ` set (old_candidates p n) \<subseteq> fst ` set old_content_types"
    by (force simp: old_candidates_def)
  also have "fst ` set old_content_types = set spec_content_types"
    by (simp add: old_content_types_def spec_content_types_def)
  finally show ?thesis .
qed

lemma old_attach_loop_text_ok:
  "old_attach_loop s l m = Inr l' \<Longrightarrow> snd ` set m \<subseteq> set spec_content_types \<Longrightarrow>
     text_ok l \<Longrightarrow> text_ok l'"
proof (induction m arbitrary: l)
  case (Cons fc m)
  obtain f ct where fc: "fc = (f, ct)" by (cases fc)
  with Cons.prems obtain c where rd: "readFileSync_base64 s f = Inr c"
    and rec: "old_attach_loop s (set_license_text
                \<lparr>att_content = c, att_encoding = Base64, att_content_type = Some ct\<rparr> l) m = Inr l'"
    by (auto split: sum.splits)
  obtain bs where "c = base64_encode bs" using readFileSync_base64_Inr [OF rd] by blast
  with Cons.prems fc have "text_ok (set_license_text
      \<lparr>att_content = c, att_encoding = Base64, att_content_type = Some ct\<rparr> l)"
    by (auto intro!: text_ok_set_license_text attachment_ok_encode)
  with Cons.IH [OF rec] Cons.prems(2) show ?case by simp
qed simp

lemma searchLicenseSources_old_cts:
  assumes "searchLicenseSources_old s p n = Inr m"
  shows "snd ` set m \<subseteq> set spec_content_types"
proof (cases "length p < 1")
  case True
  with assms show ?thesis by (simp add: searchLicenseSources_old_def)
next
  case False
  with assms have "old_search_loop s [] (old_candidates p n) = Inr m"
    by (simp add: searchLicenseSources_old_def)
  from old_search_loop_cts [OF this] old_candidates_cts [of p n] show ?thesis by simp
qed

lemma addLicenseTextToComponent_text_ok:
  assumes a: "addLicenseTextToComponent s c = Inr c'" and ok: "list_all text_ok (clicenses c)"
  shows "list_all text_ok (clicenses c')"
proof (cases "length (clicenses c) = 1 \<and> \<not> is_expression (hd (clicenses c))")
  case True
  then obtain l where l: "clicenses c = [l]"
    by (cases "clicenses c") simp_all
  show ?thesis
  proof (cases "addLicTextBasedOnLicenseFiles s l (getComponentInstallPath c)")
    case (Inl e)
    with a True l show ?thesis
      unfolding addLicenseTextToComponent_def by simp
  next
    case (Inr l')
    with a True l have c': "clicenses c' = [l']"
      unfolding addLicenseTextToComponent_def by auto
    from Inr obtain m where sr: "searchLicenseSources_old s (getComponentInstallPath c) [] = Inr m"
      and at: "old_attach_loop s l m = Inr l'"
      unfolding addLicTextBasedOnLicenseFiles_def by (simp split: sum.splits)
    show ?thesis
      using old_attach_loop_text_ok [OF at searchLicenseSources_old_cts [OF sr]] ok l c'
      by simp
  qed
next
  case False
  with a ok show ?thesis
    unfolding addLicenseTextToComponent_def by (auto split: if_splits)
qed

lemma attach_text_ok:
  "addLicenseTextsToComponent s c = Inr c' \<Longrightarrow> list_all (\<lambda>x. list_all text_ok (clicenses x)) (flat_comp c)
     \<Longrightarrow> list_all (\<lambda>x. list_all text_ok (clicenses x)) (flat_comp c')"
  "addLicenseTextsToComponents s cs = Inr cs' \<Longrightarrow> list_all (\<lambda>x. list_all text_ok (clicenses x)) (flat_comps cs)
     \<Longrightarrow> list_all (\<lambda>x. list_all text_ok (clicenses x)) (flat_comps cs')"
proof (induction c and cs arbitrary: c' and cs' rule: flat_comp.induct flat_comps.induct)
  case (Component i n v p ls subs)
  then obtain c1 subs' where a1: "addLicenseTextToComponent s (Component i n v p ls subs) = Inr c1"
    and a2: "addLicenseTextsToComponents s subs = Inr subs'"
    and c': "c' = Component i n v p (clicenses c1) subs'"
    by (auto split: sum.splits)
  have "list_all text_ok (clicenses c1)"
    using addLicenseTextToComponent_text_ok [OF a1] Component.prems(2) by simp
  with Component.IH [OF a2] Component.prems(2) c' show ?case by simp
next
  case Nil_component
  then show ?case by simp
next
  case (Cons_component c cs)
  then show ?case by (auto split: sum.splits)
qed

text \<open>
  C26. The attach walk keeps every license text of the tree well-typed in the sense of
  the specification: what it attaches is base64 that decodes, always tagged with one of
  the four content types of the registry (never left undefined).
\<close>

theorem addLicenseTextsToComponents_well_typed:
  "addLicenseTextsToComponents s cs = Inr cs' \<Longrightarrow>
     list_all (\<lambda>x. list_all text_ok (clicenses x)) (flat_comps cs) \<Longrightarrow>
     list_all (\<lambda>x. list_all text_ok (clicenses x)) (flat_comps cs')"
  by (rule attach_text_ok(2))

end
