(* ===== verification/Minimatch.thy ===== *)
theory Minimatch
  imports Prelude
begin

text \<open>
  \<open>minimatch.match(list, pattern, {nocase: true, noglobstar: true, noext: true})\<close>
  (licenseBuilder.ts line 39), minimatch 3, on names returned by \<open>readdirSync\<close> (no
  \<open>/\<close>). The \<open>Minimatch\<close> constructor trims the pattern (\<open>String.prototype.trim\<close>:
  tab, line feed, vertical tab, form feed, carriage return, space and no-break space
  among 8-bit characters); then a pattern starting with \<open>#\<close> is a comment and matches
  nothing; the empty pattern matches the empty name; leading \<open>!\<close>s are stripped and an
  odd number of them negates the result; a pattern with a \<open>/\<close> has several segments and
  matches no single name; otherwise \<open>*\<close> matches any run of characters, \<open>?\<close> one
  character, \<open>\<backslash>\<close> escapes the next character, other characters match up to ASCII case.
  A pattern with \<open>*\<close> or \<open>?\<close> (a magic one) does not match the empty name, and one that
  starts with \<open>*\<close> or \<open>?\<close> does not match a name starting with \<open>.\<close>. Brace expansion
  and bracket expressions (\<open>{a,b}\<close>, \<open>[a-z]\<close>) are not modelled, nor the
  \<open>TypeError\<close> for a pattern longer than 65536 characters: the lemmas about literal
  matching exclude \<open>{\<close> and \<open>[\<close> from the pattern.
\<close>

fun mm_glob :: "string \<Rightarrow> string \<Rightarrow> bool" where
  "mm_glob [] f = (f = [])"
| "mm_glob (c # p) f =
     (if c = CHR ''*'' then
        mm_glob p f \<or> (case f of x # f' \<Rightarrow> x \<noteq> CHR ''/'' \<and> mm_glob (c # p) f' | [] \<Rightarrow> False)
      else if c = CHR ''?'' then
        (case f of x # f' \<Rightarrow> x \<noteq> CHR ''/'' \<and> mm_glob p f' | [] \<Rightarrow> False)
      else if c = CHR 0x5C \<and> p \<noteq> [] then
        (case f of x # f' \<Rightarrow> js_lower_char x = js_lower_char (hd p) \<and> mm_glob (tl p) f' | [] \<Rightarrow> False)
      else
        (case f of x # f' \<Rightarrow> js_lower_char x = js_lower_char c \<and> mm_glob p f' | [] \<Rightarrow> False))"

fun mm_magic :: "string \<Rightarrow> bool" where
  "mm_magic [] = False"
| "mm_magic (c # p) =
     (if c = CHR 0x5C \<and> p \<noteq> [] then mm_magic (tl p)
      else c = CHR ''*'' \<or> c = CHR ''?'' \<or> mm_magic p)"

definition mm_part :: "string \<Rightarrow> string \<Rightarrow> bool" where
  "mm_part p f =
     (if mm_magic p then
        f \<noteq> [] \<and> \<not> (hd p \<in> {CHR ''*'', CHR ''?''} \<and> hd f = CHR ''.'') \<and> mm_glob p f
      else mm_glob p f)"

definition js_space :: "char \<Rightarrow> bool" where
  "js_space c \<longleftrightarrow>
     c \<in> {CHR 0x09, CHR 0x0A, CHR 0x0B, CHR 0x0C, CHR 0x0D, CHR 0x20, CHR 0xA0}"

definition js_trim :: "string \<Rightarrow> string" where
  "js_trim s = rev (dropWhile js_space (rev (dropWhile js_space s)))"

definition minimatch :: "string \<Rightarrow> string \<Rightarrow> bool" where
  "minimatch f pattern0 =
     (let pattern = js_trim pattern0 in
      if pattern = [] then f = []
      else if hd pattern = CHR ''#'' then False
      else
        let n = length (takeWhile (\<lambda>c. c = CHR ''!'') pattern);
            p = drop n pattern;
            hit = (CHR ''/'' \<notin> set p \<and> mm_part p f)
        in if odd n then \<not> hit else hit)"

definition minimatch_match :: "string list \<Rightarrow> string \<Rightarrow> string list" where
  "minimatch_match list pattern = filter (\<lambda>f. minimatch f pattern) list"

subsection \<open>Literal patterns\<close>

text \<open>
  A pattern is literal when it has none of the characters minimatch interprets and
  does not start with \<open>#\<close> or \<open>!\<close>, and neither starts nor ends with a space that
  trimming removes.
\<close>

definition lit_chars :: "string \<Rightarrow> bool" where
  "lit_chars p \<longleftrightarrow>
     (\<forall>c \<in> set p. c \<notin> {CHR ''*'', CHR ''?'', CHR 0x5C, CHR ''/'', CHR ''['', CHR ''{''})"

definition mm_literal :: "string \<Rightarrow> bool" where
  "mm_literal p \<longleftrightarrow>
     p \<noteq> [] \<and> lit_chars p \<and> hd p \<noteq> CHR ''#'' \<and> hd p \<noteq> CHR ''!'' \<and>
     \<not> js_space (hd p) \<and> \<not> js_space (last p)"

lemma lit_chars_Nil [simp]: "lit_chars []"
  by (simp add: lit_chars_def)

lemma lit_chars_Cons [simp]:
  "lit_chars (c # p) \<longleftrightarrow>
     c \<notin> {CHR ''*'', CHR ''?'', CHR 0x5C, CHR ''/'', CHR ''['', CHR ''{''} \<and> lit_chars p"
  by (auto simp: lit_chars_def)

lemma lit_chars_append [simp]: "lit_chars (a @ b) \<longleftrightarrow> lit_chars a \<and> lit_chars b"
  by (auto simp: lit_chars_def)

lemma mm_glob_literal: "lit_chars p \<Longrightarrow> mm_glob p f \<longleftrightarrow> ci_eq f p"
proof (induction p arbitrary: f)
  case Nil
  then show ?case by (simp add: ci_eq_def js_lower_def)
next
  case (Cons c p)
  then show ?case
    by (cases f) (auto simp: ci_eq_def)
qed

lemma mm_magic_literal: "lit_chars p \<Longrightarrow> \<not> mm_magic p"
  by (induction p) auto

lemma js_trim_id:
  assumes "p \<noteq> []" "\<not> js_space (hd p)" "\<not> js_space (last p)"
  shows "js_trim p = p"
proof -
  have "dropWhile js_space p = p" using assms(1,2) by (cases p) simp_all
  moreover have "dropWhile js_space (rev p) = rev p"
    using assms(1,3) by (cases "rev p") (simp_all add: last_rev [symmetric])
  ultimately show ?thesis by (simp add: js_trim_def)
qed

text \<open>On a literal pattern minimatch is equality up to ASCII case.\<close>

lemma minimatch_literal: "mm_literal p \<Longrightarrow> minimatch f p \<longleftrightarrow> ci_eq f p"
proof -
  assume lit: "mm_literal p"
  then have ne: "p \<noteq> []" and l: "lit_chars p" and h: "hd p \<noteq> CHR ''#''" "hd p \<noteq> CHR ''!''"
    and tr: "js_trim p = p"
    by (simp_all add: mm_literal_def js_trim_id)
  have tw: "takeWhile (\<lambda>c. c = CHR ''!'') p = []"
    using ne h by (cases p) simp_all
  have sl: "CHR ''/'' \<notin> set p" using l by (auto simp: lit_chars_def)
  have "minimatch f p \<longleftrightarrow> mm_part p f"
    using ne h(1) sl by (simp add: minimatch_def tw tr)
  also have "\<dots> \<longleftrightarrow> ci_eq f p"
    using l by (simp add: mm_part_def mm_magic_literal mm_glob_literal)
  finally show ?thesis .
qed

lemma minimatch_match_literal:
  "mm_literal p \<Longrightarrow> minimatch_match list p = filter (\<lambda>f. ci_eq f p) list"
  by (simp add: minimatch_match_def minimatch_literal)

subsection \<open>A literal prefix followed by a star\<close>

lemma mm_glob_star: "CHR ''/'' \<notin> set f \<Longrightarrow> mm_glob [CHR ''*''] f"
  by (induction f) auto

lemma mm_glob_prefix_star:
  "lit_chars l \<Longrightarrow> ci_eq a l \<Longrightarrow> CHR ''/'' \<notin> set b \<Longrightarrow> mm_glob (l @ [CHR ''*'']) (a @ b)"
proof (induction l arbitrary: a)
  case Nil
  then have "a = []" by (simp add: ci_eq_def js_lower_def)
  then show ?case using mm_glob_star [OF Nil(3)] by (simp only: append.simps)
next
  case (Cons c l)
  then obtain x a' where a: "a = x # a'" by (cases a) (auto simp: ci_eq_def js_lower_def)
  with Cons show ?case by (auto simp: ci_eq_def js_lower_def)
qed

text \<open>A pattern made of a literal word and a star matches every name that starts with the word.\<close>

lemma minimatch_prefix_star:
  assumes "lit_chars l" "l \<noteq> []" "hd l \<notin> {CHR ''#'', CHR ''!''}" "\<not> js_space (hd l)"
    and "ci_eq a l" "CHR ''/'' \<notin> set b"
  shows "minimatch (a @ b) (l @ [CHR ''*''])"
proof -
  have tr: "js_trim (l @ [CHR ''*'']) = l @ [CHR ''*'']"
    using assms(2,4) by (intro js_trim_id) (auto simp: js_space_def)
  have tw: "takeWhile (\<lambda>c. c = CHR ''!'') (l @ [CHR ''*'']) = []"
    using assms(2,3) by (cases l) simp_all
  have sl: "CHR ''/'' \<notin> set l" using assms(1) by (auto simp: lit_chars_def)
  have mg: "mm_magic (l @ [CHR ''*''])"
    using assms(1) by (induction l) auto
  have ne: "a @ b \<noteq> []"
    using assms(2,5) by (auto simp: ci_eq_def js_lower_def)
  have hd: "hd (l @ [CHR ''*'']) \<notin> {CHR ''*'', CHR ''?''}"
    using assms(1,2) by (cases l) simp_all
  show ?thesis
    using assms(2,3) sl mg ne hd mm_glob_prefix_star [OF assms(1,5,6)]
    by (simp add: minimatch_def tr tw mm_part_def)
qed

end
