(* ===== verification/LicenseBuilder.thy ===== *)
theory LicenseBuilder
  imports Minimatch FileSystem BomModel
begin

text \<open>
  The class \<open>LicenseBuilder\<close> of licenseBuilder.ts. \<open>searchLicenseSources\<close> lists the
  package directory once and, for each typical file name, each of its four variants with
  the short license name and each extension of the content-type table, in this order,
  appends every listed name that \<open>minimatch\<close> accepts (case-insensitively), joined to
  the directory. \<open>addText\<close> reads the first candidate and sets it, base64-encoded, as the
  license text with the content type of its extension; \<open>addTexts\<close> does so for each
  license of a set and counts the named and SPDX licenses that have a text afterwards.
  The license objects are mutated in place in the source; here \<open>addTexts\<close> returns the
  updated list with the count. A failing \<open>readdirSync\<close> or \<open>readFileSync\<close> throws, which
  is the \<open>Inl\<close> branch.
\<close>

definition typicalFilenames :: "string list" where
  "typicalFilenames = [''license'', ''licence'', ''notice'', ''unlicense'', ''unlicence'']"

text \<open>The object literal, its keys in insertion order.\<close>

definition licenseContentTypes :: "(string \<times> string) list" where
  "licenseContentTypes =
     [('''', ''text/plain''), (''.txt'', ''text/txt''), (''.md'', ''text/markdown''),
      (''.xml'', ''text/xml'')]"

definition fileExtensions :: "string list" where
  "fileExtensions = map fst licenseContentTypes"

definition contentTypes :: "string list" where
  "contentTypes = map snd licenseContentTypes"

text \<open>
  An extension outside the table gives \<open>undefined\<close>, here \<open>None\<close>. (An extension is
  empty or starts with a dot, so it never names a property of \<open>Object.prototype\<close>.)
\<close>

definition guessContentType :: "string \<Rightarrow> string option" where
  "guessContentType ext = map_of licenseContentTypes ext"

text \<open>
  \<open>licenseName.replace(/-.*/, '')\<close>: the first hyphen and the characters after it up to
  the first line terminator are removed (\<open>.\<close> does not match \<open>\n\<close> or \<open>\r\<close>).
\<close>

definition shortLicName :: "string \<Rightarrow> string" where
  "shortLicName n =
     (let post = dropWhile (\<lambda>c. c \<noteq> CHR ''-'') n
      in if post = [] then n
         else takeWhile (\<lambda>c. c \<noteq> CHR ''-'') n
              @ dropWhile (\<lambda>c. c \<noteq> CHR 10 \<and> c \<noteq> CHR 13) (tl post))"

text \<open>The patterns of the three nested loops, in the order the loops visit them.\<close>

definition candidatePatterns :: "string \<Rightarrow> string list" where
  "candidatePatterns short =
     concat (map (\<lambda>typicalFilename.
       concat (map (\<lambda>filenameVariant. map (\<lambda>fileExtension. filenameVariant @ fileExtension)
                                        fileExtensions)
         [typicalFilename, typicalFilename @ ''.'' @ short, short @ ''.'' @ typicalFilename,
          typicalFilename @ ''-'' @ short]))
       typicalFilenames)"

definition searchLicenseSources :: "fs \<Rightarrow> string \<Rightarrow> string \<Rightarrow> fs_error + string list" where
  "searchLicenseSources s pkgPath licenseName =
     (if length pkgPath < 1 then Inr []
      else
        let short = shortLicName licenseName
        in case readdirSync s pkgPath of
             Inl e \<Rightarrow> Inl e
           | Inr availableFilenames \<Rightarrow>
               Inr (concat (map (\<lambda>pattern.
                      map (\<lambda>filename. path_join pkgPath filename)
                        (minimatch_match availableFilenames pattern))
                    (candidatePatterns short))))"

definition addText :: "fs \<Rightarrow> license \<Rightarrow> string list \<Rightarrow> fs_error + license" where
  "addText s license filenames =
     (if length filenames > 0 then
        let filename = filenames ! 0
        in case readFileSync_base64 s filename of
             Inl e \<Rightarrow> Inl e
           | Inr licContent \<Rightarrow>
               Inr (set_license_text
                      \<lparr>att_content = licContent, att_encoding = Base64,
                       att_content_type = guessContentType (path_extname filename)\<rparr> license)
      else Inr license)"

text \<open>One iteration of the loop of \<open>addTexts\<close>, before the count.\<close>

definition addTexts_step :: "fs \<Rightarrow> string \<Rightarrow> license \<Rightarrow> fs_error + license" where
  "addTexts_step s pkgPath license =
     (case license of
        NamedLicense name _ \<Rightarrow>
          (case searchLicenseSources s pkgPath name of
             Inl e \<Rightarrow> Inl e | Inr fns \<Rightarrow> addText s license fns)
      | SpdxLicense i _ \<Rightarrow>
          (case searchLicenseSources s pkgPath i of
             Inl e \<Rightarrow> Inl e | Inr fns \<Rightarrow> addText s license fns)
      | LicenseExpression _ \<Rightarrow> Inr license)"

definition has_text :: "license \<Rightarrow> bool" where
  "has_text l \<longleftrightarrow> \<not> is_expression l \<and> license_text l \<noteq> None"

fun addTexts_loop ::
  "fs \<Rightarrow> string \<Rightarrow> nat \<Rightarrow> license list \<Rightarrow> fs_error + license list \<times> nat" where
  "addTexts_loop s pkgPath licAdded [] = Inr ([], licAdded)"
| "addTexts_loop s pkgPath licAdded (license # ls) =
     (case addTexts_step s pkgPath license of
        Inl e \<Rightarrow> Inl e
      | Inr license' \<Rightarrow>
          (let licAdded' = (if has_text license' then licAdded + 1 else licAdded)
           in case addTexts_loop s pkgPath licAdded' ls of
                Inl e \<Rightarrow> Inl e
              | Inr (ls', k) \<Rightarrow> Inr (license' # ls', k)))"

definition addTexts :: "fs \<Rightarrow> license list \<Rightarrow> string \<Rightarrow> fs_error + license list \<times> nat" where
  "addTexts s licenses pkgPath = addTexts_loop s pkgPath 0 licenses"

subsection \<open>The locator's contract\<close>

text \<open>
  The specification's locator (section 4.1), written from its text: the short name is
  the part of the license name before the first hyphen; for each base token (the
  specification fixes a small set without listing it, so the tokens are a parameter),
  each of the four variant templates and each of the four extensions, in this nesting,
  the listed names equal to the candidate up to case are returned, joined to the path.
\<close>

definition spec_short :: "string \<Rightarrow> string" where
  "spec_short n = takeWhile (\<lambda>c. c \<noteq> CHR ''-'') n"

definition spec_extensions :: "string list" where
  "spec_extensions = ['''', ''.txt'', ''.md'', ''.xml'']"

definition locate_spec :: "string list \<Rightarrow> string \<Rightarrow> string list \<Rightarrow> string \<Rightarrow> string list" where
  "locate_spec tokens pkgPath avail licenseName =
     (if pkgPath = [] then []
      else
        let short = spec_short licenseName
        in concat (map (\<lambda>t.
             concat (map (\<lambda>v.
               concat (map (\<lambda>e. map (path_join pkgPath) (filter (\<lambda>f. ci_eq f (v @ e)) avail))
                 spec_extensions))
               [t, t @ ''.'' @ short, short @ ''.'' @ t, t @ ''-'' @ short]))
             tokens))"

text \<open>
  A short name that the candidate patterns can carry literally: none of minimatch's
  special characters, no leading \<open>#\<close> or \<open>!\<close> (it starts the variant
  \<open>short.token\<close>), and no space at either end that minimatch would trim.
\<close>

definition literal_name :: "string \<Rightarrow> bool" where
  "literal_name s \<longleftrightarrow>
     lit_chars s \<and>
     (s = [] \<or> (hd s \<noteq> CHR ''#'' \<and> hd s \<noteq> CHR ''!'' \<and> \<not> js_space (hd s) \<and> \<not> js_space (last s)))"

subsection \<open>Example file systems\<close>

text \<open>Package directories of the specification's examples (section 8) and of the findings.\<close>

definition fs_txt :: fs where
  "fs_txt = \<lparr>fs_nodes = [(''/p'', Dir [''LICENSE.txt'']), (''/p/LICENSE.txt'', File [77])],
             fs_nocase = False\<rparr>"

definition fs_mit :: fs where
  "fs_mit = \<lparr>fs_nodes = [(''/p'', Dir [''LICENSE.MIT'']), (''/p/LICENSE.MIT'', File [77])],
             fs_nocase = False\<rparr>"

definition fs_bsd :: fs where
  "fs_bsd = \<lparr>fs_nodes = [(''/p'', Dir [''LICENSE-BSD.old'']), (''/p/LICENSE-BSD.old'', File [77])],
             fs_nocase = False\<rparr>"

definition fs_licdir :: fs where
  "fs_licdir = \<lparr>fs_nodes = [(''/p'', Dir [''LICENSE'']), (''/p/LICENSE'', Dir [])], fs_nocase = False\<rparr>"

subsection \<open>Lemmas\<close>

lemma mm_literal_append:
  "mm_literal v \<Longrightarrow> lit_chars e \<Longrightarrow> e = [] \<or> \<not> js_space (last e) \<Longrightarrow> mm_literal (v @ e)"
  by (cases v; cases e rule: rev_cases) (auto simp: mm_literal_def)

lemma typicalFilenames_literal:
  "t \<in> set typicalFilenames \<Longrightarrow> mm_literal t"
  by (auto simp: typicalFilenames_def mm_literal_def js_space_def)

lemma fileExtensions_lit:
  "e \<in> set fileExtensions \<Longrightarrow> lit_chars e \<and> (e = [] \<or> \<not> js_space (last e))"
  by (auto simp: fileExtensions_def licenseContentTypes_def js_space_def)

lemma short_dot_literal:
  "literal_name s \<Longrightarrow> mm_literal t \<Longrightarrow> mm_literal (s @ CHR ''.'' # t)"
  by (cases s) (auto simp: literal_name_def mm_literal_def js_space_def)

lemma token_short_literal:
  "literal_name s \<Longrightarrow> mm_literal t \<Longrightarrow> c \<in> {CHR ''.'', CHR ''-''} \<Longrightarrow> mm_literal (t @ c # s)"
  by (cases s rule: rev_cases) (auto simp: literal_name_def mm_literal_def js_space_def)

lemma candidatePatterns_literal:
  assumes s: "literal_name s" and p: "pat \<in> set (candidatePatterns s)"
  shows "mm_literal pat"
proof -
  have "\<exists>t \<in> set typicalFilenames. \<exists>v \<in> set [t, t @ ''.'' @ s, s @ ''.'' @ t, t @ ''-'' @ s].
          pat \<in> set (map (\<lambda>e. v @ e) fileExtensions)"
    using p unfolding candidatePatterns_def set_concat set_map image_image UN_iff by blast
  then obtain t v where t: "t \<in> set typicalFilenames"
    and v: "v \<in> set [t, t @ ''.'' @ s, s @ ''.'' @ t, t @ ''-'' @ s]"
    and pv: "pat \<in> set (map (\<lambda>e. v @ e) fileExtensions)"
    by blast
  from pv obtain e where e: "e \<in> set fileExtensions" and pat: "pat = v @ e"
    by auto
  have lt: "mm_literal t" by (rule typicalFilenames_literal [OF t])
  have "mm_literal v"
    using v lt short_dot_literal [OF s lt] token_short_literal [OF s lt, of "CHR ''.''"]
      token_short_literal [OF s lt, of "CHR ''-''"]
    by auto
  then show ?thesis
    using mm_literal_append fileExtensions_lit [OF e] pat by simp
qed

lemma length_candidatePatterns: "length (candidatePatterns s) = 80"
  by (simp add: candidatePatterns_def typicalFilenames_def fileExtensions_def
      licenseContentTypes_def)

lemma set_license_text_twice [simp]:
  "set_license_text a (set_license_text a l) = set_license_text a l"
  by (cases l) simp_all

lemma addText_key: "addText s l fns = Inr l' \<Longrightarrow> license_key l' = license_key l"
  by (cases l) (auto simp: addText_def Let_def split: sum.splits if_splits)

lemma addText_idem: "addText s l fns = Inr l' \<Longrightarrow> addText s l' fns = Inr l'"
  by (auto simp: addText_def Let_def split: sum.splits if_splits)

lemma addText_mono: "addText s l fns = Inr l' \<Longrightarrow> has_text l \<Longrightarrow> has_text l'"
  by (cases l) (auto simp: addText_def Let_def has_text_def split: sum.splits if_splits)

lemma addTexts_step_cases:
  assumes "addTexts_step s p l = Inr l'"
  obtains (expr) e where "l = LicenseExpression e" "l' = l"
  | (search) n fns where "searchLicenseSources s p n = Inr fns" "addText s l fns = Inr l'"
      "license_key l = NamedLicense n None \<or> license_key l = SpdxLicense n None"
  using assms by (cases l) (auto simp: addTexts_step_def split: sum.splits)

lemma addTexts_step_key: "addTexts_step s p l = Inr l' \<Longrightarrow> license_key l' = license_key l"
  by (erule addTexts_step_cases) (auto dest: addText_key)

lemma addTexts_step_mono: "addTexts_step s p l = Inr l' \<Longrightarrow> has_text l \<Longrightarrow> has_text l'"
  by (erule addTexts_step_cases) (auto dest: addText_mono)

lemma addTexts_step_idem: "addTexts_step s p l = Inr l' \<Longrightarrow> addTexts_step s p l' = Inr l'"
proof (erule addTexts_step_cases)
  fix e assume "l = LicenseExpression e" "l' = l"
  then show ?thesis by (simp add: addTexts_step_def)
next
  fix n fns assume sr: "searchLicenseSources s p n = Inr fns" and at: "addText s l fns = Inr l'"
    and k: "license_key l = NamedLicense n None \<or> license_key l = SpdxLicense n None"
  have "license_key l' = NamedLicense n None \<or> license_key l' = SpdxLicense n None"
    using k addText_key [OF at] by simp
  then show ?thesis
    using sr addText_idem [OF at] by (cases l') (auto simp: addTexts_step_def)
qed

lemma addTexts_loop_Cons_Inr:
  "addTexts_loop s p n (l # ls) = Inr (ls', k) \<longleftrightarrow>
     (\<exists>l' r. addTexts_step s p l = Inr l' \<and>
        addTexts_loop s p (if has_text l' then Suc n else n) ls = Inr (r, k) \<and> ls' = l' # r)"
  by (auto simp: Let_def split: sum.splits)

lemma addTexts_loop_count:
  "addTexts_loop s p n ls = Inr (ls', k) \<Longrightarrow> k = n + length (filter has_text ls')"
proof (induction ls arbitrary: n ls' k)
  case (Cons l ls)
  from Cons.prems obtain l' r where "addTexts_step s p l = Inr l'"
    and rec: "addTexts_loop s p (if has_text l' then Suc n else n) ls = Inr (r, k)"
    and "ls' = l' # r"
    unfolding addTexts_loop_Cons_Inr by blast
  with Cons.IH [OF rec] show ?case by simp
qed simp

lemma addTexts_loop_idem:
  "addTexts_loop s p n ls = Inr (ls', k) \<Longrightarrow> addTexts_loop s p n ls' = Inr (ls', k)"
proof (induction ls arbitrary: n ls' k)
  case (Cons l ls)
  from Cons.prems obtain l' r where st: "addTexts_step s p l = Inr l'"
    and rec: "addTexts_loop s p (if has_text l' then Suc n else n) ls = Inr (r, k)"
    and ls': "ls' = l' # r"
    unfolding addTexts_loop_Cons_Inr by blast
  show ?case
    unfolding ls' addTexts_loop_Cons_Inr using addTexts_step_idem [OF st] Cons.IH [OF rec] by blast
qed simp

lemma addTexts_loop_frame:
  "addTexts_loop s p n ls = Inr (ls', k) \<Longrightarrow>
     list_all2 (\<lambda>l l'. license_key l' = license_key l \<and> (has_text l \<longrightarrow> has_text l')) ls ls'"
proof (induction ls arbitrary: n ls' k)
  case (Cons l ls)
  from Cons.prems obtain l' r where st: "addTexts_step s p l = Inr l'"
    and rec: "addTexts_loop s p (if has_text l' then Suc n else n) ls = Inr (r, k)"
    and ls': "ls' = l' # r"
    unfolding addTexts_loop_Cons_Inr by blast
  show ?case
    using Cons.IH [OF rec] addTexts_step_key [OF st] addTexts_step_mono [OF st] ls' by simp
qed simp

lemma searchLicenseSources_literal:
  assumes lit: "literal_name (shortLicName n)" and rd: "readdirSync s p = Inr avail"
  shows "searchLicenseSources s p n =
           Inr (if p = [] then []
                else concat (map (\<lambda>pattern. map (path_join p) (filter (\<lambda>f. ci_eq f pattern) avail))
                               (candidatePatterns (shortLicName n))))"
proof (cases "p = []")
  case True
  then show ?thesis by (simp add: searchLicenseSources_def)
next
  case False
  with rd show ?thesis
    by (simp add: searchLicenseSources_def minimatch_match_literal
        candidatePatterns_literal [OF lit] cong: map_cong)
qed

lemma concat_map_concat:
  "concat (map g (concat (map F xs))) = concat (map (\<lambda>x. concat (map g (F x))) xs)"
  by (induction xs) simp_all

text \<open>The candidate patterns in the specification's nesting: token, template, extension.\<close>

lemma candidatePatterns_nesting:
  "concat (map g (candidatePatterns short)) =
     concat (map (\<lambda>t. concat (map (\<lambda>v. concat (map (\<lambda>e. g (v @ e)) spec_extensions))
       [t, t @ ''.'' @ short, short @ ''.'' @ t, t @ ''-'' @ short])) typicalFilenames)"
  by (simp add: candidatePatterns_def concat_map_concat fileExtensions_def licenseContentTypes_def
      spec_extensions_def)

lemmas builder_eval = candidatePatterns_def typicalFilenames_def fileExtensions_def
  licenseContentTypes_def shortLicName_def path_join_def path_normalize_def js_space_def

lemma literal_name_MIT: "literal_name (shortLicName ''MIT'')"
  by (simp add: shortLicName_def literal_name_def js_space_def)

lemma search_fs_txt: "searchLicenseSources fs_txt ''/p'' ''MIT'' = Inr [''/p/LICENSE.txt'']"
proof -
  have "readdirSync fs_txt ''/p'' = Inr [''LICENSE.txt'']"
    by (simp add: readdirSync_nl no_links_def fs_resolve_def fs_txt_def)
  moreover note literal_name_MIT
  ultimately show ?thesis
    by (simp add: searchLicenseSources_literal builder_eval js_eval)
qed

lemma addTexts_fs_txt:
  "addTexts fs_txt [NamedLicense ''MIT'' None] ''/p'' =
     Inr ([NamedLicense ''MIT'' (Some \<lparr>att_content = ''TQ=='', att_encoding = Base64,
                                      att_content_type = Some ''text/txt''\<rparr>)], 1)"
proof -
  have "readFileSync_base64 fs_txt ''/p/LICENSE.txt'' = Inr ''TQ==''"
    by (simp add: readFileSync_base64_nl no_links_def fs_resolve_def fs_txt_def b64_char_def b64_alphabet_def
        b64_s1_def)
  then show ?thesis
    by (simp add: addTexts_def addTexts_step_def search_fs_txt addText_def path_extname_def
        guessContentType_def licenseContentTypes_def has_text_def)
qed

lemma search_fs_mit: "searchLicenseSources fs_mit ''/p'' ''MIT'' = Inr [''/p/LICENSE.MIT'']"
proof -
  have "readdirSync fs_mit ''/p'' = Inr [''LICENSE.MIT'']"
    by (simp add: readdirSync_nl no_links_def fs_resolve_def fs_mit_def)
  moreover note literal_name_MIT
  ultimately show ?thesis
    by (simp add: searchLicenseSources_literal builder_eval js_eval)
qed

lemma shortLicName_no_terminator:
  assumes "CHR 10 \<notin> set n" "CHR 13 \<notin> set n"
  shows "shortLicName n = takeWhile (\<lambda>c. c \<noteq> CHR ''-'') n"
proof (cases "dropWhile (\<lambda>c. c \<noteq> CHR ''-'') n = []")
  case True
  then have tw: "takeWhile (\<lambda>c. c \<noteq> CHR ''-'') n = n"
    by (simp add: takeWhile_eq_all_conv dropWhile_eq_Nil_conv)
  show ?thesis
    unfolding shortLicName_def Let_def by (simp only: True simp_thms if_True tw)
next
  case False
  have "set (tl (dropWhile (\<lambda>c. c \<noteq> CHR ''-'') n)) \<subseteq> set n"
    by (metis list.set_sel(2) set_dropWhileD subsetI tl_Nil)
  then have "dropWhile (\<lambda>c. c \<noteq> CHR 10 \<and> c \<noteq> CHR 13) (tl (dropWhile (\<lambda>c. c \<noteq> CHR ''-'') n)) = []"
    using assms by (auto simp: dropWhile_eq_Nil_conv)
  with False show ?thesis by (auto simp: shortLicName_def)
qed

section \<open>Properties of the locator and the attacher\<close>

text \<open>
  C8. Refinement of the specification's locator \<open>locate_spec\<close>, instantiated with the
  code's base tokens: when the license name has no line terminator and the part before
  its first hyphen holds no character that minimatch interprets, the search returns
  the specification's candidates (literal, case-folded comparison, tokens outermost,
  then templates, then extensions) and fails exactly when listing the directory fails.
\<close>

theorem searchLicenseSources_refines:
  "literal_name (spec_short n) \<Longrightarrow> CHR 10 \<notin> set n \<Longrightarrow> CHR 13 \<notin> set n \<Longrightarrow>
   searchLicenseSources s p n =
     (if p = [] then Inr []
      else map_sum id (\<lambda>avail. locate_spec typicalFilenames p avail n) (readdirSync s p))"
proof (cases "readdirSync s p")
  case (Inl e)
  then show ?thesis by (simp add: searchLicenseSources_def)
next
  case (Inr avail)
  assume lit: "literal_name (spec_short n)" and nl: "CHR 10 \<notin> set n" "CHR 13 \<notin> set n"
  have sh: "shortLicName n = spec_short n"
    using shortLicName_no_terminator [OF nl] by (simp add: spec_short_def)
  from lit sh have "literal_name (shortLicName n)" by simp
  from searchLicenseSources_literal [OF this Inr] Inr show ?thesis
    unfolding locate_spec_def Let_def sh candidatePatterns_nesting by simp
qed

theorem searchLicenseSources_refines_witness:
  "literal_name (spec_short ''MIT'') \<and> CHR 10 \<notin> set ''MIT'' \<and> CHR 13 \<notin> set ''MIT'' \<and>
   searchLicenseSources fs_txt ''/p'' ''MIT'' = Inr (locate_spec typicalFilenames ''/p'' [''LICENSE.txt''] ''MIT'')"
proof -
  have l: "literal_name (spec_short ''MIT'')"
    by (simp add: spec_short_def literal_name_def js_space_def)
  have n: "CHR 10 \<notin> set ''MIT''" "CHR 13 \<notin> set ''MIT''" by simp_all
  have "readdirSync fs_txt ''/p'' = Inr [''LICENSE.txt'']"
    by (simp add: readdirSync_nl no_links_def fs_resolve_def fs_txt_def)
  then show ?thesis using searchLicenseSources_refines [OF l n, of fs_txt "''/p''"] l n by simp
qed

text \<open>C9. With an empty install path the locator searches nothing and returns no candidate.\<close>

theorem searchLicenseSources_empty_path: "searchLicenseSources s [] licenseName = Inr []"
  by (simp add: searchLicenseSources_def)

text \<open>
  C10. \<open>addText\<close> reads the first candidate only: a named or SPDX license gets the base64
  text of the first candidate file's bytes, with the content type of its extension.
\<close>

theorem addTexts_step_first:
  assumes "searchLicenseSources s p n = Inr (f # fs')" "fs_lookup s f = Inr (k, File bs)"
  shows "addTexts_step s p (NamedLicense n t) =
           Inr (NamedLicense n (Some \<lparr>att_content = base64_encode bs, att_encoding = Base64,
                                      att_content_type = guessContentType (path_extname f)\<rparr>)) \<and>
         addTexts_step s p (SpdxLicense n t) =
           Inr (SpdxLicense n (Some \<lparr>att_content = base64_encode bs, att_encoding = Base64,
                                     att_content_type = guessContentType (path_extname f)\<rparr>))"
  using assms by (simp add: addTexts_step_def addText_def readFileSync_base64_def)

theorem addTexts_step_first_witness:
  "addTexts_step fs_txt ''/p'' (NamedLicense ''MIT'' None) =
     Inr (NamedLicense ''MIT'' (Some \<lparr>att_content = base64_encode [77], att_encoding = Base64,
                                      att_content_type = guessContentType (path_extname ''/p/LICENSE.txt'')\<rparr>)) \<and>
   addTexts_step fs_txt ''/p'' (SpdxLicense ''MIT'' None) =
     Inr (SpdxLicense ''MIT'' (Some \<lparr>att_content = base64_encode [77], att_encoding = Base64,
                                     att_content_type = guessContentType (path_extname ''/p/LICENSE.txt'')\<rparr>))"
proof -
  have "fs_lookup fs_txt ''/p/LICENSE.txt'' = Inr (''/p/LICENSE.txt'', File [77])"
    by (simp add: fs_lookup_no_links no_links_def fs_resolve_def fs_txt_def)
  then show ?thesis using addTexts_step_first [OF search_fs_txt] by simp
qed

text \<open>
  C11. The count \<open>addTexts\<close> returns is the number of named and SPDX licenses that hold a
  text after the call, whether attached now or before.
\<close>

theorem addTexts_count:
  "addTexts s ls p = Inr (ls', k) \<Longrightarrow> k = length (filter has_text ls')"
  unfolding addTexts_def by (drule addTexts_loop_count) simp

theorem addTexts_count_witness:
  "(1::nat) = length (filter has_text [NamedLicense ''MIT'' (Some \<lparr>att_content = ''TQ=='',
      att_encoding = Base64, att_content_type = Some ''text/txt''\<rparr>)])"
  using addTexts_count [OF addTexts_fs_txt] .

text \<open>
  C12. Idempotence: running \<open>addTexts\<close> again on its result, over the same file system,
  changes no license and returns the same count.
\<close>

theorem addTexts_idempotent:
  "addTexts s ls p = Inr (ls', k) \<Longrightarrow> addTexts s ls' p = Inr (ls', k)"
  unfolding addTexts_def by (rule addTexts_loop_idem)

theorem addTexts_idempotent_witness:
  "addTexts fs_txt [NamedLicense ''MIT'' (Some \<lparr>att_content = ''TQ=='', att_encoding = Base64,
       att_content_type = Some ''text/txt''\<rparr>)] ''/p'' =
     Inr ([NamedLicense ''MIT'' (Some \<lparr>att_content = ''TQ=='', att_encoding = Base64,
       att_content_type = Some ''text/txt''\<rparr>)], 1)"
  using addTexts_idempotent [OF addTexts_fs_txt] .

text \<open>
  C13. \<open>addTexts\<close> only sets texts: each license keeps its kind and name (expressions are
  untouched), a text once present stays present, and the count is at most the number of
  licenses.
\<close>

theorem addTexts_frame:
  "addTexts s ls p = Inr (ls', k) \<Longrightarrow>
     list_all2 (\<lambda>l l'. license_key l' = license_key l \<and> (has_text l \<longrightarrow> has_text l')) ls ls' \<and>
     k \<le> length ls"
proof -
  assume h: "addTexts s ls p = Inr (ls', k)"
  then have a: "list_all2 (\<lambda>l l'. license_key l' = license_key l \<and> (has_text l \<longrightarrow> has_text l')) ls ls'"
    unfolding addTexts_def by (rule addTexts_loop_frame)
  have "k = length (filter has_text ls')"
    using addTexts_loop_count [OF h [unfolded addTexts_def]] by simp
  also have "\<dots> \<le> length ls" using list_all2_lengthD [OF a] by simp
  finally show ?thesis using a by simp
qed

theorem addTexts_frame_witness:
  "list_all2 (\<lambda>l l'. license_key l' = license_key l \<and> (has_text l \<longrightarrow> has_text l'))
     [NamedLicense ''MIT'' None]
     [NamedLicense ''MIT'' (Some \<lparr>att_content = ''TQ=='', att_encoding = Base64,
        att_content_type = Some ''text/txt''\<rparr>)] \<and> (1::nat) \<le> 1"
  using addTexts_frame [OF addTexts_fs_txt] by simp

text \<open>
  C14. A missing install directory is not "no evidence": when the path does not resolve
  (\<open>ENOENT\<close>, or \<open>ELOOP\<close> on a cycle of links) \<open>readdirSync\<close> throws and the search
  fails with that error, where the specification returns no candidate.
\<close>

theorem searchLicenseSources_missing_dir:
  "p \<noteq> [] \<Longrightarrow> fs_lookup s p = Inl e \<Longrightarrow> searchLicenseSources s p n = Inl e"
  by (simp add: searchLicenseSources_def readdirSync_def)

theorem searchLicenseSources_missing_dir_witness:
  "searchLicenseSources fs_txt ''/q'' ''MIT'' = Inl (ENOENT ''/q'')"
proof -
  have "fs_lookup fs_txt ''/q'' = Inl (ENOENT ''/q'')"
    by (simp add: fs_lookup_no_links no_links_def fs_resolve_def fs_txt_def)
  then show ?thesis using searchLicenseSources_missing_dir [of "''/q''"] by simp
qed

text \<open>
  C15. The license name is an active glob: for a license declared as \<open>BSD*\<close> (or any
  name whose short name is a literal word followed by \<open>*\<close>) the variant
  \<open>token-short\<close> is the pattern \<open>license-BSD*\<close>, so every listed file whose name starts
  with \<open>LICENSE-BSD\<close> in any case, such as \<open>LICENSE-BSD.old\<close>, is returned as license
  evidence. The specification asks for literal matching, under which no such file is a
  candidate.
\<close>

theorem glob_injection:
  assumes "shortLicName n = w @ ''*''" "lit_chars w" "p \<noteq> []" "readdirSync s p = Inr es"
    and "a @ b \<in> set es" "ci_eq a (''license-'' @ w)" "CHR ''/'' \<notin> set b"
  shows "\<exists>fs. searchLicenseSources s p n = Inr fs \<and> path_join p (a @ b) \<in> set fs"
proof -
  let ?pat = "''license-'' @ w @ ''*''"
  have pat: "?pat \<in> set (candidatePatterns (shortLicName n))"
    using assms(1) by (simp add: candidatePatterns_def typicalFilenames_def fileExtensions_def
      licenseContentTypes_def)
  have "minimatch (a @ b) ?pat"
    using minimatch_prefix_star [of "''license-'' @ w" a b] assms(2,6,7) by (simp add: js_space_def)
  with assms(3-5) pat show ?thesis
    by (auto simp: searchLicenseSources_def minimatch_match_def)
qed

theorem glob_injection_witness:
  "\<exists>fs. searchLicenseSources fs_bsd ''/p'' ''BSD*'' = Inr fs \<and> path_join ''/p'' ''LICENSE-BSD.old'' \<in> set fs"
proof -
  have "shortLicName ''BSD*'' = ''BSD'' @ ''*''" by (simp add: shortLicName_def)
  moreover have "readdirSync fs_bsd ''/p'' = Inr [''LICENSE-BSD.old'']"
    by (simp add: readdirSync_nl no_links_def fs_resolve_def fs_bsd_def)
  moreover have "ci_eq ''LICENSE-BSD'' (''license-'' @ ''BSD'')" by code_simp
  ultimately show ?thesis
    using glob_injection [of "''BSD*''" "''BSD''" "''/p''" fs_bsd "[''LICENSE-BSD.old'']"
        "''LICENSE-BSD''" "''.old''"]
    by simp
qed

text \<open>
  C16. A file found under the variant \<open>token.short\<close>, such as \<open>LICENSE.MIT\<close>, has an
  extension outside the content-type table: the text is attached without a content type,
  where the specification says every attachment carries one of the four.
\<close>

theorem unknown_extension_example:
  "addTexts fs_mit [SpdxLicense ''MIT'' None] ''/p'' =
     Inr ([SpdxLicense ''MIT'' (Some \<lparr>att_content = ''TQ=='', att_encoding = Base64,
                                     att_content_type = None\<rparr>)], 1)"
proof -
  note sr = search_fs_mit
  have "readFileSync_base64 fs_mit ''/p/LICENSE.MIT'' = Inr ''TQ==''"
    by (simp add: readFileSync_base64_nl no_links_def fs_resolve_def fs_mit_def b64_char_def b64_alphabet_def
        b64_s1_def)
  with sr show ?thesis
    by (simp add: addTexts_def addTexts_step_def addText_def path_extname_def
        guessContentType_def licenseContentTypes_def has_text_def)
qed

text \<open>
  C17. On a name without line terminators the short name is the part before the first
  hyphen (the whole name when there is none).
\<close>

theorem shortLicName_hyphen:
  "CHR 10 \<notin> set n \<Longrightarrow> CHR 13 \<notin> set n \<Longrightarrow> shortLicName n = takeWhile (\<lambda>c. c \<noteq> CHR ''-'') n"
  by (rule shortLicName_no_terminator)

theorem shortLicName_hyphen_witness:
  "shortLicName ''GPL-3.0-only'' = ''GPL''"
  using shortLicName_hyphen [of "''GPL-3.0-only''"] by simp

text \<open>
  C18. The regular expression's \<open>.\<close> stops at a line terminator: in a name with a
  hyphen followed, later, by a newline or carriage return, only the part from the
  hyphen to the terminator is removed, and the rest of the name stays in the short name,
  where the specification keeps only the part before the first hyphen.
\<close>

theorem shortLicName_newline:
  "CHR ''-'' \<notin> set a \<Longrightarrow> CHR 10 \<notin> set b \<Longrightarrow> CHR 13 \<notin> set b \<Longrightarrow> c = CHR 10 \<or> c = CHR 13 \<Longrightarrow>
     shortLicName (a @ CHR ''-'' # b @ c # d) = a @ c # d"
proof -
  assume a: "CHR ''-'' \<notin> set a" and b: "CHR 10 \<notin> set b" "CHR 13 \<notin> set b"
    and c: "c = CHR 10 \<or> c = CHR 13"
  have d: "dropWhile (\<lambda>x. x \<noteq> CHR ''-'') (a @ CHR ''-'' # b @ c # d) = CHR ''-'' # b @ c # d"
    using a by (simp add: dropWhile_append dropWhile_eq_Nil_conv)
  have t: "takeWhile (\<lambda>x. x \<noteq> CHR ''-'') (a @ CHR ''-'' # b @ c # d) = a"
    using a by (simp add: takeWhile_append takeWhile_eq_all_conv)
  have "dropWhile (\<lambda>x. x \<noteq> CHR 10 \<and> x \<noteq> CHR 13) (b @ c # d) = c # d"
    using b c by (auto simp: dropWhile_append dropWhile_eq_Nil_conv)
  then show ?thesis by (simp add: shortLicName_def d t)
qed

theorem shortLicName_newline_witness:
  "shortLicName (''GPL'' @ CHR ''-'' # ''3.0'' @ CHR 10 # ''x'') = ''GPL'' @ CHR 10 # ''x''"
  by (rule shortLicName_newline) simp_all

text \<open>
  C30. An unreadable first candidate aborts the whole call: when the first path the
  locator returns for a named or SPDX license is a directory (a directory named
  \<open>LICENSE\<close>, say), \<open>readFileSync\<close> in \<open>addText\<close> throws \<open>EISDIR\<close> and \<open>addTexts\<close>
  throws it, for the whole list of licenses. The specification classes unreadable
  evidence as soft, to be recorded as an absent text.
\<close>

theorem addTexts_unreadable_first_aborts:
  assumes "searchLicenseSources s p n = Inr (f # fs')" "fs_lookup s f = Inr (k, Dir es)"
  shows "addTexts s (NamedLicense n t # ls) p = Inl (EISDIR f) \<and>
         addTexts s (SpdxLicense n t # ls) p = Inl (EISDIR f)"
  using assms by (simp add: addTexts_def addTexts_step_def addText_def readFileSync_base64_def)

theorem addTexts_unreadable_first_aborts_witness:
  "addTexts fs_licdir [NamedLicense ''MIT'' None, SpdxLicense ''ISC'' None] ''/p'' = Inl (EISDIR ''/p/LICENSE'')"
proof -
  have rd: "readdirSync fs_licdir ''/p'' = Inr [''LICENSE'']"
    by (simp add: readdirSync_nl no_links_def fs_resolve_def fs_licdir_def)
  have sr: "searchLicenseSources fs_licdir ''/p'' ''MIT'' = Inr [''/p/LICENSE'']"
    using literal_name_MIT by (simp add: searchLicenseSources_literal [OF _ rd] builder_eval js_eval)
  have "fs_lookup fs_licdir ''/p/LICENSE'' = Inr (''/p/LICENSE'', Dir [])"
    by (simp add: fs_lookup_no_links no_links_def fs_resolve_def fs_licdir_def)
  from addTexts_unreadable_first_aborts [OF sr this] show ?thesis by simp
qed

subsection \<open>Attached texts decode\<close>

lemma guessContentType_registry:
  "(case guessContentType e of None \<Rightarrow> True | Some c \<Rightarrow> c \<in> set spec_content_types)"
  by (auto simp: guessContentType_def licenseContentTypes_def spec_content_types_def
      split: option.splits if_splits)

lemma addText_decodes: "addText s l fns = Inr l' \<Longrightarrow> text_decodes l \<Longrightarrow> text_decodes l'"
  by (auto simp: addText_def Let_def split: if_splits sum.splits
      dest!: readFileSync_base64_Inr
      intro!: text_decodes_set_license_text attachment_decodes_encode guessContentType_registry)

lemma addTexts_step_decodes: "addTexts_step s p l = Inr l' \<Longrightarrow> text_decodes l \<Longrightarrow> text_decodes l'"
  by (erule addTexts_step_cases) (auto dest: addText_decodes)

lemma addTexts_loop_decodes:
  "addTexts_loop s p n ls = Inr (ls', k) \<Longrightarrow> list_all text_decodes ls \<Longrightarrow> list_all text_decodes ls'"
proof (induction ls arbitrary: n ls' k)
  case (Cons l ls)
  from Cons.prems(1) obtain l' r where st: "addTexts_step s p l = Inr l'"
    and rec: "addTexts_loop s p (if has_text l' then Suc n else n) ls = Inr (r, k)"
    and ls': "ls' = l' # r"
    unfolding addTexts_loop_Cons_Inr by blast
  show ?case
    using Cons.IH [OF rec] addTexts_step_decodes [OF st] Cons.prems(2) ls' by simp
qed simp

text \<open>
  C25. Every text \<open>addTexts\<close> attaches is base64 that decodes, and its content type is
  one of the registry's or undefined; undefined occurs, for a file whose extension is not
  in the registry such as \<open>LICENSE.MIT\<close> (C16), so the builder does not keep the stricter
  \<open>text_ok\<close> of the specification, which the attach pass keeps (C26).
\<close>

theorem addTexts_texts_decode:
  "addTexts s ls p = Inr (ls', k) \<Longrightarrow> list_all text_decodes ls \<Longrightarrow> list_all text_decodes ls'"
  unfolding addTexts_def by (rule addTexts_loop_decodes)

theorem addTexts_texts_decode_witness:
  "list_all text_decodes [NamedLicense ''MIT'' (Some \<lparr>att_content = ''TQ=='', att_encoding = Base64,
     att_content_type = Some ''text/txt''\<rparr>)]"
  using addTexts_texts_decode [OF addTexts_fs_txt] by (simp add: text_decodes_def)

end
