(* ===== verification/Symlinks.thy ===== *)
theory Symlinks
  imports LicenseGaps LicenseTexts LicenseBuilder
begin

text \<open>
  Install paths reached through symbolic links. Package managers link packages into
  \<open>node_modules\<close> (npm workspaces, \<open>npm link\<close>, pnpm): \<open>node_modules/pkg\<close> is a link to
  the package's real directory. The attach pass of licensetexts.ts accepts a candidate
  only when \<open>realpathSync.native\<close> of it ends with the candidate path (line 59, meant for
  case-insensitive file systems); through a link the real path is the target's, so the
  license file is rejected. The builder lists and reads through the link and finds it.
  A cycle of links ends every lookup with \<open>ELOOP\<close> after \<open>MAXSYMLINKS\<close> expansions.
\<close>

definition fs_ws :: fs where
  "fs_ws = \<lparr>fs_nodes =
     [(''/w'', Dir [''node_modules'', ''packages'']), (''/w/node_modules'', Dir [''pkg'']),
      (''/w/node_modules/pkg'', Link ''../packages/pkg''), (''/w/packages'', Dir [''pkg'']),
      (''/w/packages/pkg'', Dir [''LICENSE'']), (''/w/packages/pkg/LICENSE'', File [77])],
     fs_nocase = False\<rparr>"

definition comp_ws :: component where
  "comp_ws = Component 5 ''pkg'' (Some ''1.0.0'') [(PackageInstallPath, ''/w/node_modules/pkg'')]
     [NamedLicense ''MIT'' None] []"

definition fs_cyc :: fs where
  "fs_cyc = \<lparr>fs_nodes = [(''/p'', Link ''/q''), (''/q'', Link ''/p'')], fs_nocase = False\<rparr>"

lemmas link_eval = first_link_def link_at_def fs_resolve_def link_dest_def

subsection \<open>Lookups through the workspace link\<close>

lemma ws_split: "plain_seg f \<Longrightarrow>
  split_slash (''/w/node_modules/pkg/'' @ f) = [[], ''w'', ''node_modules'', ''pkg'', f]"
  using split_slash_append_slash [of "''/w/node_modules/pkg''" f]
  by (simp add: plain_seg_def split_slash_no_slash)

lemma ws_split_real: "plain_seg f \<Longrightarrow>
  split_slash (''/w/packages/pkg/'' @ f) = [[], ''w'', ''packages'', ''pkg'', f]"
  using split_slash_append_slash [of "''/w/packages/pkg''" f]
  by (simp add: plain_seg_def split_slash_no_slash)

lemma ws_dest: "plain_seg f \<Longrightarrow>
  link_dest ''/w/node_modules/pkg'' ''../packages/pkg'' [f] = ''/w/packages/pkg/'' @ f"
proof -
  assume f: "plain_seg f"
  have "path_normalize ''/w/node_modules/../packages/pkg'' = ''/w/packages/pkg''"
    by (simp add: path_normalize_def)
  with path_normalize_snoc [OF f, of "''/w/node_modules/../packages/pkg''"]
  show ?thesis by (simp add: link_dest_def)
qed

lemma ws_resolve_real: "plain_seg f \<Longrightarrow>
  fs_resolve fs_ws (''/w/packages/pkg/'' @ f) =
    (if f = ''LICENSE'' then Some (''/w/packages/pkg/LICENSE'', File [77]) else None)"
  by (auto simp: fs_resolve_def fs_ws_def plain_seg_def)

lemma ws_lookup: "plain_seg f \<Longrightarrow>
  fs_lookup fs_ws (''/w/node_modules/pkg/'' @ f) =
    (if f = ''LICENSE'' then Inr (''/w/packages/pkg/LICENSE'', File [77])
     else Inl (ENOENT (''/w/node_modules/pkg/'' @ f)))"
proof -
  assume f: "plain_seg f"
  have l1: "first_link fs_ws (''/w/node_modules/pkg/'' @ f) =
      Some (''/w/node_modules/pkg'', ''../packages/pkg'', [f])"
    by (simp add: first_link_def ws_split [OF f, simplified] link_at_def fs_resolve_def fs_ws_def)
  have l2: "first_link fs_ws (''/w/packages/pkg/'' @ f) = None"
    using f by (auto simp: first_link_def ws_split_real [OF f, simplified] link_at_def
        fs_resolve_def fs_ws_def plain_seg_def)
  show ?thesis
    by (simp add: fs_lookup_def MAXSYMLINKS_def fs_follow_numeral l1 [simplified]
        ws_dest [OF f, simplified] l2 [simplified] ws_resolve_real [OF f, simplified])
qed

lemma ws_readdir: "readdirSync fs_ws ''/w/node_modules/pkg'' = Inr [''LICENSE'']"
  by (simp add: readdirSync_def fs_lookup_def MAXSYMLINKS_def fs_follow_numeral link_eval
      path_normalize_def fs_ws_def)

lemma ws_old_search: "searchLicenseSources_old fs_ws ''/w/node_modules/pkg'' [] = Inr []"
proof -
  have cd: "canonical_dir ''/w/node_modules/pkg''" by (simp add: canonical_dir_def plain_seg_def)
  have "\<forall>(f, ct) \<in> set (old_candidates ''/w/node_modules/pkg'' []). existsSync fs_ws f \<longrightarrow>
      (\<exists>r. realpathSync_native fs_ws f = Inr r \<and> \<not> ends_with r f)"
  proof (intro ballI, clarify)
    fix f ct assume "(f, ct) \<in> set (old_candidates ''/w/node_modules/pkg'' [])"
      "existsSync fs_ws f"
    moreover obtain nm where "plain_seg nm" "f = ''/w/node_modules/pkg'' @ ''/'' @ nm"
      using old_candidates_plain [OF cd] calculation(1) by blast
    ultimately show "\<exists>r. realpathSync_native fs_ws f = Inr r \<and> \<not> ends_with r f"
      using ws_lookup [of nm]
      by (auto simp: existsSync_def realpathSync_native_def ends_with_def split: if_splits)
  qed
  then show ?thesis
    by (simp add: searchLicenseSources_old_def old_search_loop_none)
qed

lemma ws_search: "searchLicenseSources fs_ws ''/w/node_modules/pkg'' ''MIT'' =
    Inr [''/w/node_modules/pkg/LICENSE'']"
proof -
  from literal_name_MIT show ?thesis
    by (simp add: searchLicenseSources_literal [OF _ ws_readdir] builder_eval js_eval)
qed

lemma ws_read: "readFileSync_base64 fs_ws ''/w/node_modules/pkg/LICENSE'' = Inr ''TQ==''"
  using ws_lookup [of "''LICENSE''"]
  by (simp add: readFileSync_base64_def plain_seg_def b64_char_def b64_alphabet_def b64_s1_def)

subsection \<open>Lookups on a cycle of links\<close>

lemma cyc_dest_below:
  assumes f: "plain_seg f"
  shows "link_dest ''/p'' ''/q'' [f] = ''/q/'' @ f" "link_dest ''/q'' ''/p'' [f] = ''/p/'' @ f"
proof -
  have "path_normalize ''/q'' = ''/q''" "path_normalize ''/p'' = ''/p''"
    by (simp_all add: path_normalize_def)
  with path_normalize_snoc [OF f, of "''/q''"] path_normalize_snoc [OF f, of "''/p''"]
  show "link_dest ''/p'' ''/q'' [f] = ''/q/'' @ f" "link_dest ''/q'' ''/p'' [f] = ''/p/'' @ f"
    by (simp_all add: link_dest_def)
qed

lemma cyc_first_link_below:
  assumes f: "plain_seg f"
  shows "first_link fs_cyc (''/p/'' @ f) = Some (''/p'', ''/q'', [f])"
    "first_link fs_cyc (''/q/'' @ f) = Some (''/q'', ''/p'', [f])"
proof -
  have "split_slash f = [f]" using f by (simp add: plain_seg_def split_slash_no_slash)
  then show "first_link fs_cyc (''/p/'' @ f) = Some (''/p'', ''/q'', [f])"
    "first_link fs_cyc (''/q/'' @ f) = Some (''/q'', ''/p'', [f])"
    by (simp_all add: first_link_def link_at_def fs_resolve_def fs_cyc_def)
qed

text \<open>Whatever the bound, following the links from \<open>/p\<close> or below it never ends on a node.\<close>

lemma cyc_follow: "fs_follow n fs_cyc ''/p'' = None \<and> fs_follow n fs_cyc ''/q'' = None"
  by (induction n) (simp_all add: link_eval fs_cyc_def path_normalize_def)

lemma cyc_follow_below:
  "plain_seg f \<Longrightarrow> fs_follow n fs_cyc (''/p/'' @ f) = None \<and> fs_follow n fs_cyc (''/q/'' @ f) = None"
  by (induction n) (simp_all add: cyc_first_link_below [simplified] cyc_dest_below [simplified])

section \<open>Properties\<close>

text \<open>
  C23. A package linked into \<open>node_modules\<close> loses its license evidence: the attach pass
  rejects \<open>/w/node_modules/pkg/LICENSE\<close> because its real path
  \<open>/w/packages/pkg/LICENSE\<close> does not end with it, the component keeps no text and the
  audit fails the run; the builder, which lists and reads through the link, attaches it.
\<close>

theorem workspace_link_loses_license:
  "addLicenseTextsToBom fs_ws \<lparr>bom_components = [comp_ws]\<rparr> ''package.json'' =
     ([''package.json''], Inr \<lparr>bom_components = [comp_ws]\<rparr>) \<and>
   checkLicenseGaps \<lparr>bom_components = [comp_ws]\<rparr> =
     ([''Components without license informations (1)'', '' - pkg@1.0.0''],
      Inl (LicenseGapFailure ''Found components without license information'')) \<and>
   addTexts fs_ws [NamedLicense ''MIT'' None] ''/w/node_modules/pkg'' =
     Inr ([NamedLicense ''MIT'' (Some \<lparr>att_content = ''TQ=='', att_encoding = Base64,
                                      att_content_type = Some ''text/plain''\<rparr>)], 1)"
proof (intro conjI)
  show "addLicenseTextsToBom fs_ws \<lparr>bom_components = [comp_ws]\<rparr> ''package.json'' =
     ([''package.json''], Inr \<lparr>bom_components = [comp_ws]\<rparr>)"
    by (simp add: addLicenseTextsToBom_def comp_ws_def addLicenseTextToComponent_def
        getComponentInstallPath_def addLicTextBasedOnLicenseFiles_def ws_old_search)
  show "checkLicenseGaps \<lparr>bom_components = [comp_ws]\<rparr> =
     ([''Components without license informations (1)'', '' - pkg@1.0.0''],
      Inl (LicenseGapFailure ''Found components without license information''))"
    by (simp add: checkLicenseGaps_def checkLicenseGapsInComponents_def comp_ws_def
        hasComponentLicenseIncluded_def repo_add_def gap_line_def dec_string.simps js_eval)
  show "addTexts fs_ws [NamedLicense ''MIT'' None] ''/w/node_modules/pkg'' =
     Inr ([NamedLicense ''MIT'' (Some \<lparr>att_content = ''TQ=='', att_encoding = Base64,
                                      att_content_type = Some ''text/plain''\<rparr>)], 1)"
    by (simp add: addTexts_def addTexts_step_def ws_search addText_def ws_read path_extname_def
        guessContentType_def licenseContentTypes_def has_text_def)
qed

text \<open>
  C24. Both searches stop on a cycle of links: every lookup under \<open>/p\<close> gives up after
  \<open>MAXSYMLINKS\<close> expansions, so \<open>existsSync\<close> reports each candidate of the attach pass
  as absent and the pass finds nothing, while the builder's \<open>readdirSync\<close> throws
  \<open>ELOOP\<close>.
\<close>

theorem link_cycle_searches_stop:
  "searchLicenseSources_old fs_cyc ''/p'' [] = Inr [] \<and>
   searchLicenseSources fs_cyc ''/p'' ''MIT'' = Inl (ELOOP ''/p'')"
proof
  have cd: "canonical_dir ''/p''" by (simp add: canonical_dir_def plain_seg_def)
  have "\<forall>(f, ct) \<in> set (old_candidates ''/p'' []). \<not> existsSync fs_cyc f"
  proof (intro ballI, clarify)
    fix f ct assume "(f, ct) \<in> set (old_candidates ''/p'' [])" "existsSync fs_cyc f"
    moreover obtain nm where "plain_seg nm" "f = ''/p'' @ ''/'' @ nm"
      using old_candidates_plain [OF cd] calculation(1) by blast
    ultimately show False
      using cyc_follow_below [of nm MAXSYMLINKS]
      by (simp add: existsSync_def fs_lookup_def)
  qed
  then show "searchLicenseSources_old fs_cyc ''/p'' [] = Inr []"
    by (auto simp: searchLicenseSources_old_def intro: old_search_loop_none)
  show "searchLicenseSources fs_cyc ''/p'' ''MIT'' = Inl (ELOOP ''/p'')"
    using cyc_follow [of MAXSYMLINKS]
    by (simp add: searchLicenseSources_def readdirSync_def fs_lookup_def)
qed

end
