(* ===== verification/Reproducible.thy ===== *)
theory Reproducible
  imports Prelude "HOL-Library.Sublist"
begin

text \<open>
  The snapshot normalisation of the integration test
  \<open>src/tests/integration/synthetics/cli.run.test.js\<close> (lines 426--490). Before a
  generated SBOM is compared with its stored snapshot, \<open>makeReproducible\<close> dispatches
  on the output format (\<open>format.toLowerCase()\<close>, a \<open>RangeError\<close> otherwise) and
  \<open>makeJsonReproducible\<close> or \<open>makeXmlReproducible\<close> replace the two tool versions by
  fixed words: the version of cyclonedx-npm by a search string built from
  \<open>thisVersion\<close> (\<open>JSON.stringify\<close> in the JSON case), the version of
  cyclonedx-library by a regular expression \<open>L1 .+? L2\<close>. Both are
  \<open>String.prototype.replace\<close> without the global flag: only the first match is
  replaced, and the replacement text goes through \<open>GetSubstitution\<close>, where
  \<open>$$\<close>, \<open>$&\<close>, \<open>$`\<close> and \<open>$'\<close> are special (there are no capture groups). Strings
  are lists of 8-bit characters; the line terminators among them are \<open>\n\<close> and \<open>\r\<close>.
\<close>

subsection \<open>The JavaScript primitives\<close>

text \<open>\<open>GetSubstitution\<close> with no captures and no named groups.\<close>

fun get_substitution :: "string \<Rightarrow> string \<Rightarrow> string \<Rightarrow> string \<Rightarrow> string" where
  "get_substitution matched preceding following [] = []"
| "get_substitution matched preceding following (c # r) =
     (if c = CHR ''$'' then
        (case r of
           d # r' \<Rightarrow>
             if d = CHR ''$'' then CHR ''$'' # get_substitution matched preceding following r'
             else if d = CHR ''&'' then matched @ get_substitution matched preceding following r'
             else if d = CHR 0x60 then preceding @ get_substitution matched preceding following r'
             else if d = CHR 0x27 then following @ get_substitution matched preceding following r'
             else c # get_substitution matched preceding following r
         | [] \<Rightarrow> [c])
      else c # get_substitution matched preceding following r)"

text \<open>\<open>String.prototype.indexOf\<close>: the first position where the search string starts.\<close>

fun index_of :: "string \<Rightarrow> string \<Rightarrow> nat option" where
  "index_of pat [] = (if pat = [] then Some 0 else None)"
| "index_of pat (c # s) =
     (if prefix pat (c # s) then Some 0 else map_option Suc (index_of pat s))"

text \<open>\<open>String.prototype.replace\<close> with a search string.\<close>

definition replace_str :: "string \<Rightarrow> string \<Rightarrow> string \<Rightarrow> string" where
  "replace_str s pat rep =
     (case index_of pat s of
        None \<Rightarrow> s
      | Some i \<Rightarrow>
          take i s @ get_substitution pat (take i s) (drop (i + length pat) s) rep @
          drop (i + length pat) s)"

definition line_terminator :: "char \<Rightarrow> bool" where
  "line_terminator c \<longleftrightarrow> c = CHR 0x0A \<or> c = CHR 0x0D"

text \<open>
  The regular expression \<open>L1 .+? L2\<close> (literals around a lazy \<open>.+\<close>) matched at a
  fixed position, by the backtracking order of the ECMAScript matcher: after the first
  \<open>.\<close>, \<open>L2\<close> is tried before each further \<open>.\<close>; a line terminator or the end of the
  input ends the attempt. \<open>lazy_tail\<close> counts the further characters, \<open>lazy_at\<close> gives
  the length of the match.
\<close>

fun lazy_tail :: "string \<Rightarrow> string \<Rightarrow> nat option" where
  "lazy_tail l2 [] = (if l2 = [] then Some 0 else None)"
| "lazy_tail l2 (c # t) =
     (if prefix l2 (c # t) then Some 0
      else if line_terminator c then None
      else map_option Suc (lazy_tail l2 t))"

definition lazy_at :: "string \<Rightarrow> string \<Rightarrow> string \<Rightarrow> nat option" where
  "lazy_at l1 l2 t =
     (if prefix l1 t then
        (case drop (length l1) t of
           [] \<Rightarrow> None
         | c # t' \<Rightarrow>
             if line_terminator c then None
             else map_option (\<lambda>k. length l1 + Suc k + length l2) (lazy_tail l2 t'))
      else None)"

text \<open>\<open>RegExpBuiltinExec\<close> without the global flag: the first position with a match.\<close>

fun regex_search :: "string \<Rightarrow> string \<Rightarrow> string \<Rightarrow> (nat \<times> nat) option" where
  "regex_search l1 l2 [] = map_option (\<lambda>n. (0, n)) (lazy_at l1 l2 [])"
| "regex_search l1 l2 (c # s) =
     (case lazy_at l1 l2 (c # s) of
        Some n \<Rightarrow> Some (0, n)
      | None \<Rightarrow> map_option (\<lambda>(i, n). (Suc i, n)) (regex_search l1 l2 s))"

text \<open>\<open>String.prototype.replace\<close> with that regular expression.\<close>

definition replace_lazy :: "string \<Rightarrow> string \<Rightarrow> string \<Rightarrow> string \<Rightarrow> string" where
  "replace_lazy s l1 l2 rep =
     (case regex_search l1 l2 s of
        None \<Rightarrow> s
      | Some (i, n) \<Rightarrow>
          take i s @ get_substitution (take n (drop i s)) (take i s) (drop (i + n) s) rep @
          drop (i + n) s)"

text \<open>\<open>JSON.stringify\<close> of a string (\<open>QuoteJSONString\<close>), lowercase hexadecimal escapes.\<close>

definition hex_digit :: "nat \<Rightarrow> char" where
  "hex_digit n = ''0123456789abcdef'' ! n"

definition json_escape_char :: "char \<Rightarrow> string" where
  "json_escape_char c =
     (let n = (of_char c :: nat) in
      if c = CHR 0x08 then [CHR 0x5C, CHR ''b'']
      else if c = CHR 0x09 then [CHR 0x5C, CHR ''t'']
      else if c = CHR 0x0A then [CHR 0x5C, CHR ''n'']
      else if c = CHR 0x0C then [CHR 0x5C, CHR ''f'']
      else if c = CHR 0x0D then [CHR 0x5C, CHR ''r'']
      else if c = CHR 0x22 then [CHR 0x5C, CHR 0x22]
      else if c = CHR 0x5C then [CHR 0x5C, CHR 0x5C]
      else if n < 32 then
        [CHR 0x5C, CHR ''u'', CHR ''0'', CHR ''0'', hex_digit (n div 16), hex_digit (n mod 16)]
      else [c])"

definition json_stringify :: "string \<Rightarrow> string" where
  "json_stringify s = CHR 0x22 # concat (map json_escape_char s) @ [CHR 0x22]"

subsection \<open>The normalisation of the test\<close>

definition nl :: string where
  "nl = [CHR 0x0A]"

text \<open>The search string and the replacement of \<open>makeJsonReproducible\<close>, lines 445--450.\<close>

definition json_npm_search :: "string \<Rightarrow> string" where
  \<open>json_npm_search thisVersion =
     ''        "vendor": "@cyclonedx",'' @ nl @
     ''        "name": "cyclonedx-npm",'' @ nl @
     ''        "version": '' @ json_stringify thisVersion @ '','' @ nl\<close>

definition json_npm_testing :: string where
  \<open>json_npm_testing =
     ''        "vendor": "@cyclonedx",'' @ nl @
     ''        "name": "cyclonedx-npm",'' @ nl @
     ''        "version": "thisVersion-testing",'' @ nl\<close>

text \<open>The regular expression of lines 453--460, split at \<open>.+?\<close>, and its replacement.\<close>

definition json_lib_l1 :: string where
  \<open>json_lib_l1 =
     ''        "vendor": "@cyclonedx",'' @ nl @
     ''        "name": "cyclonedx-library",'' @ nl @
     ''        "version": "''\<close>

definition json_lib_l2 :: string where
  \<open>json_lib_l2 = ''",'' @ nl\<close>

definition json_lib_testing :: string where
  \<open>json_lib_testing =
     ''        "vendor": "@cyclonedx",'' @ nl @
     ''        "name": "cyclonedx-library",'' @ nl @
     ''        "version": "libVersion-testing",'' @ nl\<close>

definition makeJsonReproducible :: "string \<Rightarrow> string \<Rightarrow> string" where
  "makeJsonReproducible thisVersion json =
     replace_lazy (replace_str json (json_npm_search thisVersion) json_npm_testing)
       json_lib_l1 json_lib_l2 json_lib_testing"

text \<open>\<open>makeXmlReproducible\<close>, lines 470--490: \<open>thisVersion\<close> is inserted unescaped.\<close>

definition xml_npm_search :: "string \<Rightarrow> string" where
  \<open>xml_npm_search thisVersion =
     ''        <vendor>@cyclonedx</vendor>'' @ nl @
     ''        <name>cyclonedx-npm</name>'' @ nl @
     ''        <version>'' @ thisVersion @ ''</version>''\<close>

definition xml_npm_testing :: string where
  \<open>xml_npm_testing =
     ''        <vendor>@cyclonedx</vendor>'' @ nl @
     ''        <name>cyclonedx-npm</name>'' @ nl @
     ''        <version>thisVersion-testing</version>''\<close>

definition xml_lib_l1 :: string where
  \<open>xml_lib_l1 =
     ''        <vendor>@cyclonedx</vendor>'' @ nl @
     ''        <name>cyclonedx-library</name>'' @ nl @
     ''        <version>''\<close>

definition xml_lib_l2 :: string where
  \<open>xml_lib_l2 = ''</version>''\<close>

definition xml_lib_testing :: string where
  \<open>xml_lib_testing =
     ''        <vendor>@cyclonedx</vendor>'' @ nl @
     ''        <name>cyclonedx-library</name>'' @ nl @
     ''        <version>libVersion-testing</version>''\<close>

definition makeXmlReproducible :: "string \<Rightarrow> string \<Rightarrow> string" where
  "makeXmlReproducible thisVersion xml =
     replace_lazy (replace_str xml (xml_npm_search thisVersion) xml_npm_testing)
       xml_lib_l1 xml_lib_l2 xml_lib_testing"

datatype repro_error = RangeError string

definition makeReproducible :: "string \<Rightarrow> string \<Rightarrow> string \<Rightarrow> repro_error + string" where
  "makeReproducible thisVersion format data =
     (if js_lower format = ''xml'' then Inr (makeXmlReproducible thisVersion data)
      else if js_lower format = ''json'' then Inr (makeJsonReproducible thisVersion data)
      else Inl (RangeError (''unexpected format: '' @ format)))"

subsection \<open>Search and replacement\<close>

lemma get_substitution_plain [simp]:
  "CHR ''$'' \<notin> set r \<Longrightarrow> get_substitution matched preceding following r = r"
  by (induction r) auto

text \<open>A prefix of \<open>w @ r\<close> no longer than \<open>w\<close> is a prefix of \<open>w\<close>.\<close>

lemma prefix_append_short: "prefix p (w @ r) \<Longrightarrow> length p \<le> length w \<Longrightarrow> prefix p w"
  by (auto simp: prefix_append dest: prefix_length_le)

text \<open>
  An occurrence of \<open>p\<close> that starts before \<open>p\<close> itself in \<open>x @ p @ r\<close> lies in
  \<open>x @ butlast p\<close>; the hypotheses below exclude such earlier occurrences.
\<close>

lemma early_occurrence:
  assumes "prefix p (c # x @ p @ r)" "p \<noteq> []"
  shows "sublist p (c # x @ butlast p)"
proof -
  have "c # x @ p @ r = (c # x @ butlast p) @ [last p] @ r"
    using assms(2) by simp
  with assms have "prefix p (c # x @ butlast p)"
    by (metis prefix_append_short length_butlast length_Cons length_append
        le_add2 add_Suc_right Suc_diff_1 length_greater_0_conv)
  then show ?thesis by (rule prefix_imp_sublist)
qed

lemma index_of_prefix: "prefix p s \<Longrightarrow> index_of p s = Some 0"
  by (cases s) auto

lemma lazy_tail_prefix: "prefix l2 s \<Longrightarrow> lazy_tail l2 s = Some 0"
  by (cases s) auto

lemma no_early_Cons: "\<not> sublist p ((c # x) @ q) \<Longrightarrow> \<not> sublist p (x @ q)"
  by (metis append_Cons sublist_Cons_right)

lemma index_of_first:
  "\<not> sublist p (x @ butlast p) \<Longrightarrow> index_of p (x @ p @ r) = Some (length x)"
proof (induction x)
  case Nil
  then show ?case by (simp add: index_of_prefix)
next
  case (Cons c x)
  then have "p \<noteq> []" by auto
  with Cons.prems have "\<not> prefix p (c # x @ p @ r)" using early_occurrence [of p c x r] by auto
  with Cons.IH Cons.prems no_early_Cons [of p c x] show ?case by simp
qed

lemma replace_str_first:
  "\<not> sublist p (x @ butlast p) \<Longrightarrow> CHR ''$'' \<notin> set rep \<Longrightarrow>
     replace_str (x @ p @ r) p rep = x @ rep @ r"
  by (simp add: replace_str_def index_of_first)

lemma lazy_tail_first:
  "\<not> sublist l2 (x @ butlast l2) \<Longrightarrow> \<forall>c \<in> set x. \<not> line_terminator c \<Longrightarrow>
     lazy_tail l2 (x @ l2 @ r) = Some (length x)"
proof (induction x)
  case Nil
  then show ?case by (simp add: lazy_tail_prefix)
next
  case (Cons c x)
  then have "l2 \<noteq> []" by auto
  with Cons.prems have "\<not> prefix l2 (c # x @ l2 @ r)" using early_occurrence [of l2 c x r] by auto
  with Cons.IH Cons.prems no_early_Cons [of l2 c x] show ?case by simp
qed

lemma lazy_at_match:
  assumes "v \<noteq> []" "\<forall>c \<in> set v. \<not> line_terminator c" "\<not> sublist l2 (v @ butlast l2)"
  shows "lazy_at l1 l2 (l1 @ v @ l2 @ r) = Some (length l1 + length v + length l2)"
proof -
  obtain c v' where v: "v = c # v'" using assms(1) by (cases v) auto
  have "lazy_tail l2 (v' @ l2 @ r) = Some (length v')"
    using assms(2,3) v no_early_Cons [of l2 c v'] by (intro lazy_tail_first) auto
  with assms(2) v show ?thesis by (simp add: lazy_at_def)
qed

lemma regex_search_first:
  "\<not> sublist l1 (x @ butlast l1) \<Longrightarrow> lazy_at l1 l2 (l1 @ t) = Some n \<Longrightarrow>
     regex_search l1 l2 (x @ l1 @ t) = Some (length x, n)"
proof (induction x)
  case Nil
  then show ?case by (cases "l1 @ t") auto
next
  case (Cons c x)
  then have "l1 \<noteq> []" by (auto simp: lazy_at_def)
  with Cons.prems have "\<not> prefix l1 (c # x @ l1 @ t)" using early_occurrence [of l1 c x t] by auto
  then have "lazy_at l1 l2 (c # x @ l1 @ t) = None" by (simp add: lazy_at_def)
  with Cons.IH Cons.prems no_early_Cons [of l1 c x] show ?case by simp
qed

lemma replace_lazy_first:
  assumes "\<not> sublist l1 (x @ butlast l1)" "v \<noteq> []" "\<forall>c \<in> set v. \<not> line_terminator c"
    "\<not> sublist l2 (v @ butlast l2)" "CHR ''$'' \<notin> set rep"
  shows "replace_lazy (x @ l1 @ v @ l2 @ r) l1 l2 rep = x @ rep @ r"
proof -
  have "regex_search l1 l2 (x @ l1 @ v @ l2 @ r) = Some (length x, length l1 + length v + length l2)"
    using assms(1) lazy_at_match [OF assms(2-4)] by (rule regex_search_first)
  with assms(5) show ?thesis by (simp add: replace_lazy_def)
qed

lemma index_of_None: "\<not> sublist p s \<Longrightarrow> index_of p s = None"
  by (induction s) (auto simp: prefix_imp_sublist sublist_Cons_right)

lemma regex_search_None: "\<not> sublist l1 s \<Longrightarrow> regex_search l1 l2 s = None"
  by (induction s) (auto simp: lazy_at_def prefix_imp_sublist sublist_Cons_right split: if_splits)

text \<open>Both replacements of a normalisation, on a text where each finds its block first.\<close>

lemma replace_both:
  assumes "\<not> sublist s (pre @ butlast s)" "\<not> sublist l1 (pre @ t1 @ mid @ butlast l1)"
    "lv \<noteq> []" "\<forall>c \<in> set lv. \<not> line_terminator c" "\<not> sublist l2 (lv @ butlast l2)"
    "CHR ''$'' \<notin> set t1" "CHR ''$'' \<notin> set t2"
  shows "replace_lazy (replace_str (pre @ s @ mid @ l1 @ lv @ l2 @ post) s t1) l1 l2 t2 =
           pre @ t1 @ mid @ t2 @ post"
  using replace_str_first [OF assms(1,6), of "mid @ l1 @ lv @ l2 @ post"]
    replace_lazy_first [where x = "pre @ t1 @ mid" and v = lv and rep = t2 and r = post]
    assms(2-5,7)
  by simp

lemma replace_both_absent:
  "\<not> sublist s json \<Longrightarrow> \<not> sublist l1 json \<Longrightarrow> replace_lazy (replace_str json s t1) l1 l2 t2 = json"
  by (simp add: replace_str_def replace_lazy_def index_of_None regex_search_None)

lemma json_lib_l2_no_early:
  "\<forall>c \<in> set lv. \<not> line_terminator c \<Longrightarrow> \<not> sublist json_lib_l2 (lv @ butlast json_lib_l2)"
proof
  assume "\<forall>c \<in> set lv. \<not> line_terminator c" "sublist json_lib_l2 (lv @ butlast json_lib_l2)"
  then have "CHR 0x0A \<in> set (lv @ butlast json_lib_l2)"
    by (auto dest!: set_mono_sublist simp: json_lib_l2_def nl_def)
  with \<open>\<forall>c \<in> set lv. \<not> line_terminator c\<close> show False
    by (auto simp: json_lib_l2_def nl_def line_terminator_def)
qed

section \<open>Properties\<close>

text \<open>
  C27. The JSON normalisation does what the snapshot comparison relies on: in an SBOM
  text whose first cyclonedx-npm tool block carries \<open>thisVersion\<close> and whose first
  cyclonedx-library block carries some version on one line, both versions are replaced
  by the fixed words and nothing else changes, so two runs that differ only in the tool
  versions give the same normalised text.
\<close>

theorem makeJsonReproducible_normalises:
  assumes "\<not> sublist (json_npm_search v) (pre @ butlast (json_npm_search v))"
    and "\<not> sublist json_lib_l1 (pre @ json_npm_testing @ mid @ butlast json_lib_l1)"
    and "lv \<noteq> []" "\<forall>c \<in> set lv. \<not> line_terminator c"
  shows "makeJsonReproducible v (pre @ json_npm_search v @ mid @ json_lib_l1 @ lv @ json_lib_l2 @ post) =
           pre @ json_npm_testing @ mid @ json_lib_testing @ post"
  unfolding makeJsonReproducible_def
  by (rule replace_both [OF assms json_lib_l2_no_early [OF assms(4)]])
     (simp_all add: json_npm_testing_def json_lib_testing_def nl_def)

theorem makeJsonReproducible_normalises_witness:
  "makeJsonReproducible ''1.2.3''
     (''{'' @ json_npm_search ''1.2.3'' @ ''x'' @ json_lib_l1 @ ''6.0.0'' @ json_lib_l2 @ ''}'') =
   ''{'' @ json_npm_testing @ ''x'' @ json_lib_testing @ ''}''"
  by (rule makeJsonReproducible_normalises) code_simp+

text \<open>
  C28. The XML normalisation replaces the version of the first cyclonedx-npm tool block
  (\<open>thisVersion\<close> inserted as it is) and the version of the first cyclonedx-library
  block (one line, without \<open></version>\<close> in it) by the fixed words, and changes
  nothing else.
\<close>

theorem makeXmlReproducible_normalises:
  assumes "\<not> sublist (xml_npm_search v) (pre @ butlast (xml_npm_search v))"
    and "\<not> sublist xml_lib_l1 (pre @ xml_npm_testing @ mid @ butlast xml_lib_l1)"
    and "lv \<noteq> []" "\<forall>c \<in> set lv. \<not> line_terminator c"
    and "\<not> sublist xml_lib_l2 (lv @ butlast xml_lib_l2)"
  shows "makeXmlReproducible v (pre @ xml_npm_search v @ mid @ xml_lib_l1 @ lv @ xml_lib_l2 @ post) =
           pre @ xml_npm_testing @ mid @ xml_lib_testing @ post"
  unfolding makeXmlReproducible_def
  by (rule replace_both [OF assms]) (simp_all add: xml_npm_testing_def xml_lib_testing_def nl_def)

theorem makeXmlReproducible_normalises_witness:
  "makeXmlReproducible ''1.2.3''
     (''<bom>'' @ xml_npm_search ''1.2.3'' @ ''<x/>'' @ xml_lib_l1 @ ''6.0.0'' @ xml_lib_l2 @ ''</bom>'') =
   ''<bom>'' @ xml_npm_testing @ ''<x/>'' @ xml_lib_testing @ ''</bom>''"
  by (rule makeXmlReproducible_normalises) code_simp+

text \<open>
  C29. A snapshot without the two tool blocks (a different layout of \<open>metadata.tools\<close>,
  or another version of cyclonedx-npm than \<open>thisVersion\<close>) is left as it is, in either
  format: the normalisation fails silently and the comparison then sees the versions.
  A format other than JSON or XML, in any letter case, is a \<open>RangeError\<close>.
\<close>

theorem makeReproducible_no_tool_blocks:
  assumes "\<not> sublist (json_npm_search v) d" "\<not> sublist json_lib_l1 d"
    and "\<not> sublist (xml_npm_search v) d" "\<not> sublist xml_lib_l1 d"
  shows "makeReproducible v format d =
           (if js_lower format \<in> {''json'', ''xml''} then Inr d
            else Inl (RangeError (''unexpected format: '' @ format)))"
  using assms
  by (auto simp: makeReproducible_def makeJsonReproducible_def makeXmlReproducible_def
      replace_both_absent)

theorem makeReproducible_no_tool_blocks_witness:
  "makeReproducible ''1.2.3'' ''JSON'' ''{}'' = Inr ''{}''"
proof -
  have "\<not> sublist (json_npm_search ''1.2.3'') ''{}''" "\<not> sublist json_lib_l1 ''{}''"
    "\<not> sublist (xml_npm_search ''1.2.3'') ''{}''" "\<not> sublist xml_lib_l1 ''{}''"
    by code_simp+
  moreover have "js_lower ''JSON'' = ''json''" by code_simp
  ultimately show ?thesis using makeReproducible_no_tool_blocks [of "''1.2.3''" "''{}''" "''JSON''"]
    by simp
qed

end
