(* ===== verification/Spec2Isabelle.thy ===== *)
theory Spec2Isabelle
  imports LicenseGaps LicenseTexts LicenseBuilder Symlinks Reproducible
begin

text \<open>
  \<^bold>\<open>License-text evidence of cyclonedx-node-npm: a verification library.\<close>

  \<^bold>\<open>The program.\<close> Two source files implement license evidence for the SBOM:
  \<^item> \<open>src/src/licensetexts.ts\<close>: the pipeline the generator runs. \<open>addLicenseTextsToBom\<close>
    walks the component tree (\<open>addLicenseTextsToComponents\<close>), and for a component with
    exactly one named or SPDX license looks up license files in the component's install
    path (\<open>getComponentInstallPath\<close>, \<open>searchLicenseSources\<close>) and attaches their
    base64 content (\<open>addLicTextBasedOnLicenseFiles\<close>). \<open>checkLicenseGaps\<close> then walks
    the tree again (\<open>checkLicenseGapsInComponents\<close>) and throws when any component lacks
    complete evidence (\<open>hasComponentLicenseIncluded\<close>, \<open>hasLicenseInformation\<close>).
  \<^item> \<open>src/src/licenseBuilder.ts\<close>: the newer \<open>LicenseBuilder\<close> class, whose
    \<open>searchLicenseSources\<close> lists the directory and matches file names with
    \<open>minimatch\<close> case-insensitively, whose \<open>addText\<close> attaches the first match and whose
    \<open>addTexts\<close> does so for every license of a set and counts the licenses with text.
  The components interact only through the component tree (the BOM object model of
  \<open>@cyclonedx/cyclonedx-library\<close>) and the file system, which they read.

  \<^bold>\<open>The theories.\<close>
  \<^item> \<open>Prelude\<close>: bytes, the JavaScript string primitives (ASCII \<open>toLowerCase\<close>,
    \<open>endsWith\<close>, number to string), \<open>Map.prototype.set\<close> on insertion-ordered lists;
    the collection \<open>js_eval\<close> evaluates case folding on concrete strings.
  \<^item> \<open>BomModel\<close>: attachments, the three license classes as one datatype, components as
    a tree nested through lists with their object identity, the BOM; the depth-first
    walk \<open>flat_comps\<close> and the well-formedness \<open>wf_components\<close> (each object once);
    the type of an attached text in the specification's sense, \<open>text_ok\<close>: base64 that
    decodes, tagged with one of the four content types of the registry
    \<open>spec_content_types\<close>; and the weaker \<open>text_decodes\<close>, which also allows an
    undefined content type.
  \<^item> \<open>LicenseGaps\<close>: the audit (licensetexts.ts lines 123--170). On a well-formed forest
    \<open>checkLicenseGapsInComponents\<close> is the filter of the incomplete components along
    the walk (C1); \<open>checkLicenseGaps\<close> throws the gap error exactly when one exists and
    returns normally otherwise (C2); a component with a license expression or with no
    license is always a gap (C3, C4).
  \<^item> \<open>Base64\<close>: \<open>readFileSync(f, {encoding: 'base64'})\<close> as Node's encoder on \<open>8 word\<close>
    lists and a decoder; the platform facts the development uses (the round trip, the
    length, every encoded text decodes) are lemmas, not properties of the repository.
  \<^item> \<open>NodePath\<close>: Node's POSIX \<open>path.join\<close>, \<open>normalize\<close> and \<open>extname\<close>;
    joining a canonical directory and a plain name is concatenation with \<open>/\<close>.
  \<^item> \<open>FileSystem\<close>: the file system as nodes keyed by canonical path with a
    case-insensitivity flag; a node is a file, a directory or a symbolic link.
    \<open>fs_lookup\<close> replaces the shortest prefix of the path that is a link by the link's
    target (\<open>first_link\<close>, \<open>link_dest\<close>) until none is left, at most
    \<open>MAXSYMLINKS\<close> times (\<open>fs_follow\<close>); \<open>existsSync\<close>, \<open>realpathSync.native\<close>,
    \<open>readdirSync\<close> and \<open>readFileSync\<close> read through it and fail as Node does
    (\<open>ENOENT\<close>, \<open>ENOTDIR\<close>, \<open>EISDIR\<close>, \<open>ELOOP\<close>). On a file system without
    links (\<open>no_links\<close>, implied by \<open>wf_fs\<close>) the calls are direct lookups.
  \<^item> \<open>LicenseTexts\<close>: the attach pass of licensetexts.ts (lines 32--121): candidates,
    the exact-case existence check through \<open>realpathSync.native\<close>, reading every match
    (the last one wins), the single-license guard, the walk and the BOM-level entry.
    The search keeps exactly the candidates spelled as they exist, on either kind of
    file system (C5); components without exactly one named or SPDX license are skipped
    (C6); the last match wins (C7); the walk returns whenever every existing candidate is
    a file (\<open>old_reads_files\<close>, \<open>attach_ok\<close>) and keeps every text of the tree
    well-typed in the specification's sense (C26).
  \<^item> \<open>Minimatch\<close>: \<open>minimatch.match\<close> of minimatch 3 with the options the builder
    passes, the pattern trimmed as the \<open>Minimatch\<close> constructor does; on a literal
    pattern it is equality up to case, and a literal word followed by \<open>*\<close> matches every
    name starting with the word.
  \<^item> \<open>LicenseBuilder\<close>: the class of licenseBuilder.ts. The locator refines the
    specification's locator \<open>locate_spec\<close>, written from the specification's text
    (short name, four templates, four extensions, tokens outermost), when the short name
    has no glob character (C8) and returns nothing for an empty path (C9); \<open>addText\<close>
    takes the first candidate (C10); \<open>addTexts\<close> counts the licenses with text, is
    idempotent and only adds texts (C11--C13); the divergences: a missing directory
    throws (C14), the license name is an active glob (C15), \<open>LICENSE.MIT\<close> gets no
    content type (C16), an unreadable first candidate aborts \<open>addTexts\<close> (C30); the
    short name (C17, C18); every attached text decodes, with a registry type or none
    (C25).
  \<^item> \<open>Symlinks\<close>: the two searches on file systems with links. A package reached
    through a link in \<open>node_modules\<close> (npm workspaces, \<open>npm link\<close>) loses its license
    text in the attach pass, whose \<open>realpathSync.native(..).endsWith(..)\<close> check then
    fails, so the run fails the audit, while the builder follows the link (C23); on a
    cycle of links both searches return, the builder with \<open>ELOOP\<close> (C24).
  \<^item> \<open>Reproducible\<close>: the snapshot normalisation of the integration test
    (\<open>src/tests/integration/synthetics/cli.run.test.js\<close>, \<open>makeReproducible\<close>,
    \<open>makeJsonReproducible\<close>, \<open>makeXmlReproducible\<close>) over the ECMAScript primitives
    it calls: \<open>String.prototype.replace\<close> with a search string (\<open>index_of\<close>,
    \<open>replace_str\<close>) and with the regular expression \<open>L1 .+? L2\<close> (\<open>regex_search\<close>,
    \<open>replace_lazy\<close>), \<open>GetSubstitution\<close> and \<open>JSON.stringify\<close>. On an SBOM text
    whose first tool blocks carry the versions, each normalisation replaces exactly
    the two versions (C27 for JSON, C28 for XML); a text without the blocks is returned
    unchanged, and a format other than JSON or XML is a \<open>RangeError\<close> (C29).
  \<^item> This theory: \<open>run\<close>, the attach pass followed by the audit as the generator runs
    them; a component with one named or SPDX license and an exact \<open>LICENSE\<close> file passes
    the audit after the attach step (C19); the two searches disagree on
    \<open>LICENSE.MIT\<close> (C20); the attach pass returns when every existing candidate is a
    file (C21), and a directory named \<open>LICENSE\<close> aborts the run (C22).

  \<^bold>\<open>Interaction.\<close> The attach pass and the builder read the file system through
  \<open>FileSystem\<close>; the audit reads the texts the attach pass wrote. A run is attach then
  audit on the same tree (\<open>addLicenseTextsToBom\<close> then \<open>checkLicenseGaps\<close>). The
  builder is not called by the attach pass in this revision; C20 compares the two. The
  integration test runs the whole CLI and compares its output, normalised by
  \<open>Reproducible\<close>, with a stored snapshot.

  \<^bold>\<open>Bounds and fuel.\<close> Every loop of the sources runs over a finite list (directory
  listing, candidate list, license list, component tree), so every operation is a total
  \<open>fun\<close>, \<open>primrec\<close> or \<open>definition\<close>. The one unbounded loop is the kernel's, following
  links: \<open>fs_follow\<close> takes the fuel \<open>MAXSYMLINKS = 40\<close>, Linux's limit on the links
  followed in one lookup, and answers \<open>ELOOP\<close> when it runs out with a link left, as the
  kernel does; with no link on the path no fuel is used (\<open>fs_follow_no_links\<close>).

  \<^bold>\<open>Not modelled.\<close> Console output other than as returned lines; the body of
  \<open>Models\<close> beyond the fields read or written; Unicode case folding (ASCII only);
  permissions; the \<open>..\<close> of a link target is removed lexically, not after resolving the
  directory before it; Windows paths; minimatch's \<open>TypeError\<close> for a pattern longer
  than 65536 characters; the CLI, which is not in the repository, and the jest harness of the
  integration test, which spawns it (only the pure normalisation helpers are modelled).
  Brace expansion (the \<open>brace-expansion\<close> package) and bracket expressions of
  minimatch are left out because their meaning depends on the ECMAScript regular
  expression parser (a bracket expression is kept only when \<open>new RegExp\<close> accepts it,
  and escapes inside it are rewritten before that check), which the development does
  not model; the minimatch lemmas exclude \<open>{\<close> and \<open>[\<close> from the patterns they
  treat as literal, and the fixed file names and extensions of the candidate patterns contain
  neither.
\<close>

section \<open>A run: attach, then audit\<close>

text \<open>
  The control flow of a generator run (specification section 2): the attach pass over
  the BOM, then the audit; a file-system error of the first or the gap error of the
  second ends the run.
\<close>

datatype run_error = FsError fs_error | GapError gap_error

definition run :: "fs \<Rightarrow> bom \<Rightarrow> string \<Rightarrow> string list \<times> (run_error + bom)" where
  "run s b packageFile =
     (case addLicenseTextsToBom s b packageFile of
        (out, Inl e) \<Rightarrow> (out, Inl (FsError e))
      | (out, Inr b') \<Rightarrow>
          (case checkLicenseGaps b' of
             (out', Inl g) \<Rightarrow> (out @ out', Inl (GapError g))
           | (out', Inr _) \<Rightarrow> (out @ out', Inr b')))"

definition fs_pkg_a :: fs where
  "fs_pkg_a = \<lparr>fs_nodes = [(''/pkg-a'', Dir [''LICENSE'']), (''/pkg-a/LICENSE'', File [77])],
               fs_nocase = False\<rparr>"

definition bom_pkg_a :: bom where
  "bom_pkg_a = \<lparr>bom_components =
     [Component 7 ''pkg-a'' (Some ''1.0.0'') [(PackageInstallPath, ''/pkg-a'')]
        [NamedLicense ''MIT'' None] []]\<rparr>"

lemma wf_fs_pkg_a: "wf_fs fs_pkg_a"
  by (simp add: fs_pkg_a_def wf_fs_def canonical_dir_def plain_seg_def fs_key_def)

lemma read_pkg_a_LICENSE: "readFileSync_base64 fs_pkg_a ''/pkg-a/LICENSE'' = Inr ''TQ==''"
  by (simp add: readFileSync_base64_nl no_links_def fs_resolve_def fs_pkg_a_def b64_char_def b64_alphabet_def
      b64_s1_def)

definition fs_dir :: fs where
  "fs_dir = \<lparr>fs_nodes = [(''/p'', Dir [''LICENSE'']), (''/p/LICENSE'', Dir [])], fs_nocase = False\<rparr>"

definition bom_dir :: bom where
  "bom_dir = \<lparr>bom_components =
     [Component 9 ''pkg-c'' None [(PackageInstallPath, ''/p'')] [NamedLicense ''MIT'' None] []]\<rparr>"

lemma fs_has_pkg_a: "fs_has fs_pkg_a f \<longleftrightarrow> f = ''/pkg-a'' \<or> f = ''/pkg-a/LICENSE''"
  by (auto simp: fs_has_def fs_pkg_a_def)

lemma fs_pkg_a_search:
  "searchLicenseSources_old fs_pkg_a ''/pkg-a'' [] = Inr [(''/pkg-a/LICENSE'', ''text/plain'')]"
proof -
  note wf = wf_fs_pkg_a
  have cd: "canonical_dir ''/pkg-a''" by (simp add: canonical_dir_def plain_seg_def)
  show ?thesis
    by (simp add: searchLicenseSources_old_fold [OF wf] old_candidates_def old_typical_filenames_def
        old_content_types_def path_join_plain [OF cd] plain_seg_def fs_has_pkg_a)
qed

lemma attach_pkg_a:
  "addLicenseTextToComponent fs_pkg_a
     (Component 7 ''pkg-a'' (Some ''1.0.0'') [(PackageInstallPath, ''/pkg-a'')] [NamedLicense ''MIT'' None] []) =
   Inr (Component 7 ''pkg-a'' (Some ''1.0.0'') [(PackageInstallPath, ''/pkg-a'')]
     [NamedLicense ''MIT'' (Some \<lparr>att_content = ''TQ=='', att_encoding = Base64,
                                   att_content_type = Some ''text/plain''\<rparr>)] [])"
  by (simp add: addLicenseTextToComponent_def getComponentInstallPath_def
      addLicTextBasedOnLicenseFiles_def fs_pkg_a_search read_pkg_a_LICENSE)

text \<open>The attach walk on \<open>pkg-a\<close> attaches a registry-typed text.\<close>

theorem addLicenseTextsToComponents_well_typed_witness:
  "list_all (\<lambda>x. list_all text_ok (clicenses x))
     (flat_comps [Component 7 ''pkg-a'' (Some ''1.0.0'') [(PackageInstallPath, ''/pkg-a'')]
        [NamedLicense ''MIT'' (Some \<lparr>att_content = ''TQ=='', att_encoding = Base64,
                                      att_content_type = Some ''text/plain''\<rparr>)] []])"
proof -
  have h: "addLicenseTextsToComponents fs_pkg_a
     [Component 7 ''pkg-a'' (Some ''1.0.0'') [(PackageInstallPath, ''/pkg-a'')] [NamedLicense ''MIT'' None] []] =
   Inr [Component 7 ''pkg-a'' (Some ''1.0.0'') [(PackageInstallPath, ''/pkg-a'')]
     [NamedLicense ''MIT'' (Some \<lparr>att_content = ''TQ=='', att_encoding = Base64,
                                   att_content_type = Some ''text/plain''\<rparr>)] []]"
    using attach_pkg_a by simp
  show ?thesis using addLicenseTextsToComponents_well_typed [OF h] by (simp add: text_ok_def)
qed

text \<open>
  C19. Attach then audit, for one component: on a well-formed file system without empty
  files, a component whose only license is named or SPDX with a non-empty name, and whose
  install directory holds a file spelled exactly \<open>LICENSE\<close>, passes the audit once the
  attach step has run without error, whichever of the matching files is attached last.
\<close>

theorem attach_single_license_complete:
  assumes wf: "wf_fs s" and nonempty: "\<forall>(k, n) \<in> set (fs_nodes s). n \<noteq> File []"
    and p: "canonical_dir (getComponentInstallPath c)"
    and has: "fs_has s (getComponentInstallPath c @ ''/LICENSE'')"
    and lic: "clicenses c = [l]" "l = NamedLicense nm t \<or> l = SpdxLicense nm t" "nm \<noteq> []"
    and ok: "addLicenseTextToComponent s c = Inr c'"
  shows "hasComponentLicenseIncluded c'"
proof -
  let ?p = "getComponentInstallPath c"
  have ne: "\<not> is_expression l" using lic(2) by auto
  from ok lic(1) ne obtain l' where att: "addLicTextBasedOnLicenseFiles s l ?p = Inr l'"
    and c': "clicenses c' = [l']"
    by (auto simp: addLicenseTextToComponent_def split: sum.splits)
  define m where "m = fold (\<lambda>(f, ct) m. if fs_has s f then amap_set f ct m else m)
                         (old_candidates ?p []) []"
  have pne: "?p \<noteq> []" using p by (auto simp: canonical_dir_def plain_seg_def)
  have loop: "old_attach_loop s l m = Inr l'"
    using att pne by (simp add: addLicTextBasedOnLicenseFiles_def searchLicenseSources_old_fold [OF wf] m_def)
  have "(?p @ ''/LICENSE'', ''text/plain'') \<in> set (old_candidates ?p [])"
    by (simp add: old_candidates_def old_typical_filenames_def old_content_types_def
        path_join_plain [OF p] plain_seg_def)
  then have "?p @ ''/LICENSE'' \<in> fst ` set m"
    using has unfolding m_def fold_amap_set_keys by blast
  then have mne: "m \<noteq> []" by auto
  obtain f ct where lm: "last m = (f, ct)" by (cases "last m")
  have "(f, ct) \<in> set m" using mne lm by (metis last_in_set)
  then obtain cnt where rd: "readFileSync_base64 s f = Inr cnt"
    using old_attach_loop_reads [OF loop] by blast
  have tx: "license_text l' = Some \<lparr>att_content = cnt, att_encoding = Base64, att_content_type = Some ct\<rparr>"
    using old_attach_loop_last [OF loop mne ne] rd lm by simp
  have cne: "cnt \<noteq> []" by (rule readFileSync_base64_nonempty [OF rd nonempty])
  have "license_key l' = license_key l" by (rule old_attach_loop_key [OF loop])
  then have "hasLicenseInformation l'"
    using tx cne lic(2,3) by (cases l') auto
  then show ?thesis using c' by (simp add: hasComponentLicenseIncluded_def)
qed

theorem attach_single_license_complete_witness:
  "hasComponentLicenseIncluded
     (Component 7 ''pkg-a'' (Some ''1.0.0'') [(PackageInstallPath, ''/pkg-a'')]
       [NamedLicense ''MIT'' (Some \<lparr>att_content = ''TQ=='', att_encoding = Base64,
                                     att_content_type = Some ''text/plain''\<rparr>)] [])"
proof (rule attach_single_license_complete [OF wf_fs_pkg_a _ _ _ _ _ _ attach_pkg_a])
  show "\<forall>(k, n) \<in> set (fs_nodes fs_pkg_a). n \<noteq> File []" by (simp add: fs_pkg_a_def)
  show "canonical_dir (getComponentInstallPath
     (Component 7 ''pkg-a'' (Some ''1.0.0'') [(PackageInstallPath, ''/pkg-a'')] [NamedLicense ''MIT'' None] []))"
    by (simp add: getComponentInstallPath_def canonical_dir_def plain_seg_def)
  show "fs_has fs_pkg_a (getComponentInstallPath
     (Component 7 ''pkg-a'' (Some ''1.0.0'') [(PackageInstallPath, ''/pkg-a'')] [NamedLicense ''MIT'' None] [])
     @ ''/LICENSE'')"
    by (simp add: getComponentInstallPath_def fs_has_def fs_pkg_a_def)
  show "clicenses (Component 7 ''pkg-a'' (Some ''1.0.0'') [(PackageInstallPath, ''/pkg-a'')]
          [NamedLicense ''MIT'' None] []) = [NamedLicense ''MIT'' None]" by simp
  show "NamedLicense ''MIT'' None = NamedLicense ''MIT'' None \<or>
        NamedLicense ''MIT'' None = SpdxLicense ''MIT'' None" by simp
  show "''MIT'' \<noteq> []" by simp
qed

text \<open>
  C20. The two searches of the repository disagree: for a directory holding only
  \<open>LICENSE.MIT\<close>, the attach pass of licensetexts.ts, which passes the empty license
  name, finds nothing (its variants are \<open>LICENSE.\<close> and \<open>LICENSE-\<close>), while the
  builder finds the file for license \<open>MIT\<close>.
\<close>

theorem old_search_misses_LICENSE_MIT:
  "searchLicenseSources_old fs_mit ''/p'' [] = Inr [] \<and>
   searchLicenseSources fs_mit ''/p'' ''MIT'' = Inr [''/p/LICENSE.MIT'']"
proof
  have wf: "wf_fs fs_mit"
    by (simp add: fs_mit_def wf_fs_def canonical_dir_def plain_seg_def fs_key_def)
  have cd: "canonical_dir ''/p''" by (simp add: canonical_dir_def plain_seg_def)
  have has: "fs_has fs_mit f \<longleftrightarrow> f = ''/p'' \<or> f = ''/p/LICENSE.MIT''" for f
    by (auto simp: fs_has_def fs_mit_def)
  show "searchLicenseSources_old fs_mit ''/p'' [] = Inr []"
    by (simp add: searchLicenseSources_old_fold [OF wf] old_candidates_def old_typical_filenames_def
        old_content_types_def path_join_plain [OF cd] plain_seg_def has)
  show "searchLicenseSources fs_mit ''/p'' ''MIT'' = Inr [''/p/LICENSE.MIT'']"
    by (rule search_fs_mit)
qed

text \<open>
  C21. The attach pass returns: on a well-formed file system where every candidate that
  exists with its exact spelling is a file, \<open>addLicenseTextsToBom\<close> never throws; it
  prints the package file name and yields the annotated BOM.
\<close>

theorem addLicenseTextsToBom_returns:
  "wf_fs s \<Longrightarrow> list_all (old_reads_files s) (flat_comps (bom_components b)) \<Longrightarrow>
     \<exists>b'. addLicenseTextsToBom s b packageFile = ([packageFile], Inr b')"
  using attach_ok(2) by (force simp: addLicenseTextsToBom_def)

theorem addLicenseTextsToBom_returns_witness:
  "\<exists>b'. addLicenseTextsToBom fs_pkg_a bom_pkg_a ''package.json'' = ([''package.json''], Inr b')"
proof (rule addLicenseTextsToBom_returns [OF wf_fs_pkg_a])
  have cd: "canonical_dir ''/pkg-a''" by (simp add: canonical_dir_def plain_seg_def)
  have node: "\<exists>bs. (''/pkg-a/LICENSE'', File bs) \<in> set (fs_nodes fs_pkg_a)"
    by (simp add: fs_pkg_a_def)
  show "list_all (old_reads_files fs_pkg_a) (flat_comps (bom_components bom_pkg_a))"
    by (simp add: bom_pkg_a_def old_reads_files_def getComponentInstallPath_def old_candidates_def
        old_typical_filenames_def old_content_types_def path_join_plain [OF cd] plain_seg_def
        fs_has_pkg_a node)
qed

text \<open>
  C22. A directory named like a license file aborts the run: \<open>/p/LICENSE\<close> exists and
  passes the case check, \<open>readFileSync\<close> throws \<open>EISDIR\<close>, and nothing is printed. The
  specification treats unreadable evidence as absent.
\<close>

theorem license_directory_aborts_run:
  "run fs_dir bom_dir ''package.json'' = ([], Inl (FsError (EISDIR ''/p/LICENSE'')))"
proof -
  have wf: "wf_fs fs_dir"
    by (simp add: fs_dir_def wf_fs_def canonical_dir_def plain_seg_def fs_key_def)
  have cd: "canonical_dir ''/p''" by (simp add: canonical_dir_def plain_seg_def)
  have has: "fs_has fs_dir f \<longleftrightarrow> f = ''/p'' \<or> f = ''/p/LICENSE''" for f
    by (auto simp: fs_has_def fs_dir_def)
  have "searchLicenseSources_old fs_dir ''/p'' [] = Inr [(''/p/LICENSE'', ''text/plain'')]"
    by (simp add: searchLicenseSources_old_fold [OF wf] old_candidates_def old_typical_filenames_def
        old_content_types_def path_join_plain [OF cd] plain_seg_def has)
  moreover have "readFileSync_base64 fs_dir ''/p/LICENSE'' = Inl (EISDIR ''/p/LICENSE'')"
    by (simp add: readFileSync_base64_nl no_links_def fs_resolve_def fs_dir_def)
  ultimately show ?thesis
    by (simp add: run_def bom_dir_def addLicenseTextsToBom_def addLicenseTextToComponent_def
        getComponentInstallPath_def addLicTextBasedOnLicenseFiles_def)
qed

end
